theory Spec2Isabelle
  imports Complex_Main
begin

section \<open>Strings of the host language\<close>

text \<open>
  Strings are byte strings. \<open>toLowerCase\<close> acts on the ASCII letters and leaves every other
  byte alone. The program uses its result only in a comparison with \<open>all\<close>, and no character
  outside ASCII has a lower case that is an \<open>a\<close> or an \<open>l\<close>, so the comparison comes out as in
  the program. \<open>toUpperCase\<close> below is the upper case on ASCII strings; the upper case of the
  host, which also turns some letters outside ASCII into ASCII ones, is a parameter of the
  model where the program calls it.
\<close>

definition lower_char :: "char \<Rightarrow> char" where
  "lower_char c = (let n = (of_char c :: nat) in if 65 \<le> n \<and> n \<le> 90 then char_of (n + 32) else c)"

definition upper_char :: "char \<Rightarrow> char" where
  "upper_char c = (let n = (of_char c :: nat) in if 97 \<le> n \<and> n \<le> 122 then char_of (n - 32) else c)"

definition toLowerCase :: "string \<Rightarrow> string" where
  "toLowerCase s = map lower_char s"

definition toUpperCase :: "string \<Rightarrow> string" where
  "toUpperCase s = map upper_char s"

text \<open>\<open>s.includes(t)\<close>: \<open>t\<close> occurs in \<open>s\<close> as a contiguous block.\<close>

fun is_prefix :: "string \<Rightarrow> string \<Rightarrow> bool" where
  "is_prefix [] s = True"
| "is_prefix (c # t) [] = False"
| "is_prefix (c # t) (d # s) = (c = d \<and> is_prefix t s)"

fun str_includes :: "string \<Rightarrow> string \<Rightarrow> bool" where
  "str_includes [] t = (t = [])"
| "str_includes (c # s) t = (is_prefix t (c # s) \<or> str_includes s t)"

text \<open>\<open>String(n)\<close> for an integral number: its decimal digits, with a minus sign below zero.\<close>

definition digit_char :: "nat \<Rightarrow> char" where
  "digit_char d = char_of (48 + d)"

function digits_of :: "nat \<Rightarrow> string" where
  "digits_of n = (if n < 10 then [digit_char n] else digits_of (n div 10) @ [digit_char (n mod 10)])"
  by pat_completeness auto
termination
  by (relation "measure (\<lambda>n. n)") auto

declare digits_of.simps [simp del]

definition String_int :: "int \<Rightarrow> string" where
  "String_int i = (if i < 0 then CHR ''-'' # digits_of (nat (- i)) else digits_of (nat i))"


section \<open>The error classes (errors.js)\<close>

text \<open>
  An error object carries the class it was constructed by (\<open>instanceof\<close> reads it) and the
  fields the base constructor assigns. The \<open>timestamp\<close> field, a rendering of the wall clock,
  is left out. \<open>retryAfter\<close> of a rate-limit error is the parsed header, \<open>None\<close> for NaN.
\<close>

datatype err_class =
    AppErrorC
  | NetworkErrorC
  | CorsErrorC
  | RateLimitErrorC "int option"
  | ServerErrorC int
  | PayloadTooLargeErrorC
  | SchemaValidationErrorC
  | WitsLimitErrorC

record app_error =
  cls :: err_class
  name :: string
  message :: string
  code :: "string option"
  source :: "string option"
  recoverable :: bool
  uiMessage :: string
  retryable :: bool

text \<open>The options object of the constructors: a field that is \<open>None\<close> is an absent key.\<close>

record err_opts =
  o_code :: "string option"
  o_source :: "string option"
  o_recoverable :: "bool option"
  o_uiMessage :: "string option"
  o_retryable :: "bool option"

definition no_opts :: err_opts where
  "no_opts = \<lparr>o_code = None, o_source = None, o_recoverable = None, o_uiMessage = None,
     o_retryable = None\<rparr>"

text \<open>\<open>{ ...base, ...opts }\<close>: the keys present in \<open>opts\<close> win.\<close>

definition spread_opts :: "err_opts \<Rightarrow> err_opts \<Rightarrow> err_opts" where
  "spread_opts base opts =
     \<lparr>o_code = (case o_code opts of None \<Rightarrow> o_code base | Some v \<Rightarrow> Some v),
      o_source = (case o_source opts of None \<Rightarrow> o_source base | Some v \<Rightarrow> Some v),
      o_recoverable = (case o_recoverable opts of None \<Rightarrow> o_recoverable base | Some v \<Rightarrow> Some v),
      o_uiMessage = (case o_uiMessage opts of None \<Rightarrow> o_uiMessage base | Some v \<Rightarrow> Some v),
      o_retryable = (case o_retryable opts of None \<Rightarrow> o_retryable base | Some v \<Rightarrow> Some v)\<rparr>"

definition AppError :: "string \<Rightarrow> err_opts \<Rightarrow> app_error" where
  "AppError msg opts =
     \<lparr>cls = AppErrorC, name = ''AppError'', message = msg,
      code = o_code opts, source = o_source opts,
      recoverable = (case o_recoverable opts of None \<Rightarrow> False | Some b \<Rightarrow> b),
      uiMessage = (case o_uiMessage opts of None \<Rightarrow> msg | Some u \<Rightarrow> if u = [] then msg else u),
      retryable = (case o_retryable opts of None \<Rightarrow> False | Some b \<Rightarrow> b)\<rparr>"

definition NetworkError :: "string \<Rightarrow> err_opts \<Rightarrow> app_error" where
  "NetworkError msg opts =
     (AppError msg (spread_opts
        (no_opts\<lparr>o_code := Some ''NETWORK'', o_recoverable := Some True, o_retryable := Some True\<rparr>)
        opts))
     \<lparr>cls := NetworkErrorC, name := ''NetworkError''\<rparr>"

definition CorsError :: "string \<Rightarrow> app_error" where
  "CorsError src =
     (AppError (''CORS blocked for '' @ src)
        \<lparr>o_code = Some ''CORS'', o_source = Some src, o_recoverable = Some True,
         o_uiMessage = Some (''Live refresh unavailable (CORS) for '' @ src
                             @ ''. Displaying pre-fetched WITS data.''),
         o_retryable = Some False\<rparr>)
     \<lparr>cls := CorsErrorC, name := ''CorsError''\<rparr>"

definition RateLimitError :: "string \<Rightarrow> int option \<Rightarrow> app_error" where
  "RateLimitError src retryAfter =
     (AppError (''Rate limited by '' @ src)
        \<lparr>o_code = Some ''RATE_LIMIT'', o_source = Some src, o_recoverable = Some True,
         o_uiMessage = Some (''Rate limited by '' @ src @ ''. Retrying...''),
         o_retryable = Some True\<rparr>)
     \<lparr>cls := RateLimitErrorC retryAfter, name := ''RateLimitError''\<rparr>"

definition ServerError :: "string \<Rightarrow> int \<Rightarrow> app_error" where
  "ServerError src status =
     (AppError (''Server error '' @ String_int status @ '' from '' @ src)
        \<lparr>o_code = Some ''SERVER_ERROR'', o_source = Some src, o_recoverable = Some True,
         o_uiMessage = Some (''Server error from '' @ src @ ''. Retrying...''),
         o_retryable = Some True\<rparr>)
     \<lparr>cls := ServerErrorC status, name := ''ServerError''\<rparr>"

definition PayloadTooLargeError :: "string \<Rightarrow> app_error" where
  "PayloadTooLargeError src =
     (AppError (''Payload too large from '' @ src)
        \<lparr>o_code = Some ''PAYLOAD_TOO_LARGE'', o_source = Some src, o_recoverable = Some True,
         o_uiMessage = Some (''Request to '' @ src @ '' returned too much data. Auto-chunking...''),
         o_retryable = Some False\<rparr>)
     \<lparr>cls := PayloadTooLargeErrorC, name := ''PayloadTooLargeError''\<rparr>"

definition WitsLimitError :: "string \<Rightarrow> app_error" where
  "WitsLimitError detail =
     (AppError (''WITS request limit: '' @ detail)
        \<lparr>o_code = Some ''WITS_LIMIT'', o_source = Some ''wits'', o_recoverable = Some True,
         o_uiMessage = Some ''WITS query too broad. Splitting into smaller requests...'',
         o_retryable = Some False\<rparr>)
     \<lparr>cls := WitsLimitErrorC, name := ''WitsLimitError''\<rparr>"


section \<open>The query planner (wits.js)\<close>

text \<open>
  The planner reads a parameter object only through \<open>String(params[d])\<close>. A parameter object
  is the map from its own keys to those strings; a key that is absent reads as the string
  \<open>undefined\<close>. Years are integral numbers.
\<close>

type_synonym params = "string \<rightharpoonup> string"

record validation =
  valid :: bool
  reason :: "string option"

record query =
  datasource :: string
  qparams :: params

definition DIMS :: "string list" where
  "DIMS = [''reporter'', ''year'', ''partner'', ''product'', ''indicator'']"

definition String_param :: "params \<Rightarrow> string \<Rightarrow> string" where
  "String_param ps d = (case ps d of None \<Rightarrow> ''undefined'' | Some v \<Rightarrow> v)"

definition is_all :: "params \<Rightarrow> string \<Rightarrow> bool" where
  "is_all ps d = (toLowerCase (String_param ps d) = ''all'')"

definition validate :: "params \<Rightarrow> validation" where
  "validate ps =
     (let allDims = filter (is_all ps) DIMS in
      if length allDims > 2 then
        \<lparr>valid = False,
         reason = Some (String_int (int (length allDims)) @ '' dimensions set to ALL; max 2 allowed.'')\<rparr>
      else if ''reporter'' \<in> set allDims \<and> ''partner'' \<in> set allDims then
        \<lparr>valid = False, reason = Some ''reporter=ALL + partner=ALL is not allowed.''\<rparr>
      else if length allDims = 2 then
        (let specificDims = filter (\<lambda>d. d \<notin> set allDims) DIMS in
         case find (is_all ps) specificDims of
           Some sd \<Rightarrow>
             \<lparr>valid = False, reason = Some (''When 2 dims are ALL, '' @ sd @ '' must be specific.'')\<rparr>
         | None \<Rightarrow> \<lparr>valid = True, reason = None\<rparr>)
      else \<lparr>valid = True, reason = None\<rparr>)"

text \<open>The inner loop of \<open>chunk\<close>: one candidate per year \<open>yr\<close> of a block, kept when it validates.\<close>

function chunk_years :: "string \<Rightarrow> params \<Rightarrow> int \<Rightarrow> int \<Rightarrow> query list \<Rightarrow> query list" where
  "chunk_years ds ps yr endY chunks =
     (if yr \<le> endY then
        (let p = ps(''year'' \<mapsto> String_int yr);
             recheck = validate p
         in chunk_years ds ps (yr + 1) endY
              (if valid recheck then chunks @ [\<lparr>datasource = ds, qparams = p\<rparr>] else chunks))
      else chunks)"
  by pat_completeness auto
termination
  by (relation "measure (\<lambda>(ds, ps, yr, endY, chunks). nat (endY + 1 - yr))") auto

declare chunk_years.simps [simp del]

text \<open>The outer loop: blocks of five years from \<open>y\<close> up to the end of the range.\<close>

function chunk_blocks :: "string \<Rightarrow> params \<Rightarrow> int \<Rightarrow> int \<Rightarrow> query list \<Rightarrow> query list" where
  "chunk_blocks ds ps y hi chunks =
     (if y \<le> hi then
        (let endY = min (y + 4) hi
         in chunk_blocks ds ps (y + 5) hi (chunk_years ds ps y endY chunks))
      else chunks)"
  by pat_completeness auto
termination
  by (relation "measure (\<lambda>(ds, ps, y, hi, chunks). nat (hi + 1 - y))") auto

declare chunk_blocks.simps [simp del]

definition default_yearRange :: "int \<times> int" where
  "default_yearRange = (2000, 2024)"

text \<open>\<open>chunk\<close>: the year range is optional; a thrown error is the left summand.\<close>

definition chunk :: "string \<Rightarrow> params \<Rightarrow> (int \<times> int) option \<Rightarrow> app_error + query list" where
  "chunk ds ps yearRange =
     (let yr = (case yearRange of None \<Rightarrow> default_yearRange | Some r \<Rightarrow> r);
          check = validate ps
      in if valid check then Inr [\<lparr>datasource = ds, qparams = ps\<rparr>]
         else
           (let chunks = chunk_blocks ds ps (fst yr) (snd yr) []
            in if length chunks = 0
               then Inl (WitsLimitError (case reason check of None \<Rightarrow> ''undefined'' | Some r \<Rightarrow> r))
               else Inr chunks))"


text \<open>
  For stating the results: the plan with one sub-query per year of a range, and the condition
  under which a sub-query with a specific year validates (it does not depend on the year).
\<close>

definition per_year_plan :: "string \<Rightarrow> params \<Rightarrow> int \<Rightarrow> int \<Rightarrow> query list" where
  "per_year_plan ds ps lo hi =
     map (\<lambda>y. \<lparr>datasource = ds, qparams = ps(''year'' \<mapsto> String_int y)\<rparr>) [lo..hi]"

definition year_legal :: "params \<Rightarrow> bool" where
  "year_legal ps \<longleftrightarrow>
     length (filter (is_all ps) [''reporter'', ''partner'', ''product'', ''indicator'']) \<le> 2
     \<and> \<not> (is_all ps ''reporter'' \<and> is_all ps ''partner'')"

text \<open>Example queries.\<close>

definition q_all3 :: params where
  "q_all3 = [''reporter'' \<mapsto> ''all'', ''year'' \<mapsto> ''all'', ''partner'' \<mapsto> ''all'',
             ''product'' \<mapsto> ''total'', ''indicator'' \<mapsto> ''XPRT-TRD-VL'']"

definition q_all5 :: params where
  "q_all5 = [''reporter'' \<mapsto> ''ALL'', ''year'' \<mapsto> ''All'', ''partner'' \<mapsto> ''all'',
             ''product'' \<mapsto> ''all'', ''indicator'' \<mapsto> ''all'']"

definition q_ind_chn :: params where
  "q_ind_chn = [''reporter'' \<mapsto> ''IND'', ''year'' \<mapsto> ''all'', ''partner'' \<mapsto> ''CHN'',
                ''product'' \<mapsto> ''all'', ''indicator'' \<mapsto> ''XPRT-TRD-VL'']"

definition q_ind_all3 :: params where
  "q_ind_all3 = [''reporter'' \<mapsto> ''IND'', ''year'' \<mapsto> ''all'', ''partner'' \<mapsto> ''all'',
                 ''product'' \<mapsto> ''all'', ''indicator'' \<mapsto> ''XPRT-TRD-VL'']"


section \<open>The forecast engine (model.worker.js)\<close>

text \<open>
  A series is an array of numbers and nulls. Numbers are real numbers: the rounding of the
  machine's floating point is not modelled. A season period is a positive whole number and a
  horizon is a whole number; the functions are modelled on that domain.
\<close>

type_synonym series = "real option list"

text \<open>\<open>b || 0\<close> on a number or null, and \<open>p[i]\<close>, which is undefined past the end.\<close>

definition or0 :: "real option \<Rightarrow> real" where
  "or0 b = (case b of None \<Rightarrow> 0 | Some v \<Rightarrow> v)"

definition at_idx :: "series \<Rightarrow> nat \<Rightarrow> real option" where
  "at_idx p i = (if i < length p then p ! i else None)"

text \<open>\<open>xs.slice(start, end)\<close>, with the clamping of negative and oversized bounds.\<close>

definition slice :: "'a list \<Rightarrow> int \<Rightarrow> int \<Rightarrow> 'a list" where
  "slice xs start stop =
     (let n = int (length xs);
          k = (if start < 0 then max (n + start) 0 else min start n);
          e = (if stop < 0 then max (n + stop) 0 else min stop n)
      in take (nat (e - k)) (drop (nat k) xs))"

definition slice_from :: "'a list \<Rightarrow> int \<Rightarrow> 'a list" where
  "slice_from xs start = slice xs start (int (length xs))"

definition seasonalNaive :: "series \<Rightarrow> nat \<Rightarrow> nat \<Rightarrow> series" where
  "seasonalNaive values seasonPeriod horizon =
     (let n = length values in
      if n < seasonPeriod + 1 then replicate horizon None
      else
        (let diffs = foldl (\<lambda>diffs i.
                        if values ! i \<noteq> None \<and> values ! (i - seasonPeriod) \<noteq> None
                        then diffs @ [the (values ! i) - the (values ! (i - seasonPeriod))]
                        else diffs) [] [seasonPeriod..<n];
             avgTrend = (if length diffs > 0
                         then foldl (\<lambda>a b. a + b) 0 diffs / real (length diffs) else 0)
         in foldl (\<lambda>forecast h.
              (let sIdx = int n - int seasonPeriod + int ((h - 1) mod seasonPeriod);
                   base = (if sIdx \<ge> 0 \<and> sIdx < int n then values ! nat sIdx else values ! (n - 1))
               in forecast @ [if base \<noteq> None
                              then Some (the base + avgTrend * of_int \<lceil>real h / real seasonPeriod\<rceil>)
                              else None]))
              [] [1..<horizon + 1]))"

text \<open>The options of \<open>holtWinters\<close>: an absent key takes the default of the destructuring.\<close>

record hw_opts =
  alpha :: "real option"
  beta :: "real option"
  gamma :: "real option"
  seasonPeriod :: "nat option"
  horizon :: "nat option"

text \<open>The smoothing loop: one step for the observation at index \<open>t\<close>; a null is skipped.\<close>

definition hw_step ::
  "real \<Rightarrow> real \<Rightarrow> real \<Rightarrow> nat \<Rightarrow> series \<Rightarrow> real \<times> real \<times> real list \<Rightarrow> nat \<Rightarrow> real \<times> real \<times> real list" where
  "hw_step a b g s values st t =
     (case st of (level, trend, seasonal) \<Rightarrow>
        (case values ! t of
           None \<Rightarrow> (level, trend, seasonal)
         | Some v \<Rightarrow>
             (let sIdx = t mod s;
                  pL = level;
                  level' = a * (v - seasonal ! sIdx) + (1 - a) * (level + trend);
                  trend' = b * (level' - pL) + (1 - b) * trend;
                  seasonal' = (if s > 1
                               then seasonal[sIdx := g * (v - level') + (1 - g) * seasonal ! sIdx]
                               else seasonal)
              in (level', trend', seasonal'))))"

text \<open>The state (level, trend, seasonal offsets) after initialisation and the smoothing loop.\<close>

definition hw_state :: "real \<Rightarrow> real \<Rightarrow> real \<Rightarrow> nat \<Rightarrow> series \<Rightarrow> real \<times> real \<times> real list" where
  "hw_state a b g s values =
     (let n = length values;
          level = foldl (\<lambda>a b. a + or0 b) 0 (slice values 0 (int s)) / real s;
          trend = (if n \<ge> 2 * s then
                     (let a1 = foldl (\<lambda>a b. a + or0 b) 0 (slice values 0 (int s)) / real s;
                          a2 = foldl (\<lambda>a b. a + or0 b) 0 (slice values (int s) (int (2 * s))) / real s
                      in (a2 - a1) / real s)
                   else 0);
          seasonal = (if s > 1
                      then foldl (\<lambda>seasonal i. seasonal[i := or0 (values ! i) - level])
                             (replicate s 0) [0..<s]
                      else replicate s 0)
      in foldl (hw_step a b g s values) (level, trend, seasonal) [0..<n])"

definition holtWinters :: "series \<Rightarrow> hw_opts \<Rightarrow> series" where
  "holtWinters values opts =
     (let a = (case alpha opts of None \<Rightarrow> 0.3 | Some x \<Rightarrow> x);
          b = (case beta opts of None \<Rightarrow> 0.1 | Some x \<Rightarrow> x);
          g = (case gamma opts of None \<Rightarrow> 0.2 | Some x \<Rightarrow> x);
          s = (case seasonPeriod opts of None \<Rightarrow> 1 | Some x \<Rightarrow> x);
          hz = (case horizon opts of None \<Rightarrow> 5 | Some x \<Rightarrow> x);
          n = length values
      in if n < 2 * s then seasonalNaive values s hz
         else
           (case hw_state a b g s values of (level, trend, seasonal) \<Rightarrow>
              foldl (\<lambda>fc h. fc @ [Some (level + trend * real h
                                          + (if s > 1 then seasonal ! ((n + h - 1) mod s) else 0))])
                [] [1..<hz + 1]))"

definition calcRMSE :: "series \<Rightarrow> series \<Rightarrow> real option" where
  "calcRMSE a p =
     (case foldl (\<lambda>(s, c) i.
               if a ! i \<noteq> None \<and> at_idx p i \<noteq> None
               then (s + (the (a ! i) - the (at_idx p i)) ^ 2, c + 1) else (s, c))
             (0, 0 :: nat) [0..<length a]
      of (s, c) \<Rightarrow> if c > 0 then Some (sqrt (s / real c)) else None)"

definition calcMAPE :: "series \<Rightarrow> series \<Rightarrow> real option" where
  "calcMAPE a p =
     (case foldl (\<lambda>(s, c) i.
               if a ! i \<noteq> None \<and> a ! i \<noteq> Some 0 \<and> at_idx p i \<noteq> None
               then (s + \<bar>(the (a ! i) - the (at_idx p i)) / the (a ! i)\<bar>, c + 1) else (s, c))
             (0, 0 :: nat) [0..<length a]
      of (s, c) \<Rightarrow> if c > 0 then Some (s / real c * 100) else None)"

record eval_result =
  rmse :: "real option"
  mape :: "real option"
  residuals :: "real list"

text \<open>
  \<open>rollingEval\<close>: the forecast function is a parameter and may throw (the left summand), which
  \<open>rollingEval\<close> does not catch.
\<close>

definition rollingEval :: "series \<Rightarrow> int \<Rightarrow> (series \<Rightarrow> 'e + series) \<Rightarrow> 'e + eval_result" where
  "rollingEval values testSize fcFn =
     (let clean = filter (\<lambda>v. v \<noteq> None) values in
      if int (length clean) < testSize + 3 then Inr \<lparr>rmse = None, mape = None, residuals = []\<rparr>
      else
        (let train = slice clean 0 (int (length clean) - testSize);
             test = slice_from clean (int (length clean) - testSize)
         in case fcFn train of
              Inl e \<Rightarrow> Inl e
            | Inr pred \<Rightarrow>
                Inr \<lparr>rmse = calcRMSE test pred, mape = calcMAPE test pred,
                     residuals = map (\<lambda>i. or0 (test ! i) - or0 (at_idx pred i)) [0..<length test]\<rparr>))"


text \<open>
  For stating the results: the differences between each observation and the one a season
  earlier, over the positions where both are present, and their mean (0 when there is none).
\<close>

definition valid_diffs :: "series \<Rightarrow> nat \<Rightarrow> real list" where
  "valid_diffs values s =
     map (\<lambda>i. the (values ! i) - the (values ! (i - s)))
       (filter (\<lambda>i. values ! i \<noteq> None \<and> values ! (i - s) \<noteq> None) [s..<length values])"

definition mean_diff :: "series \<Rightarrow> nat \<Rightarrow> real" where
  "mean_diff values s =
     (if valid_diffs values s = [] then 0
      else sum_list (valid_diffs values s) / real (length (valid_diffs values s)))"


section \<open>Values of the host language\<close>

text \<open>
  The values that decoded JSON and the canonical rows hold. A number is a real number or NaN;
  an object is the list of its own properties in enumeration order, with distinct keys.
\<close>

datatype jsval =
    JUndefined
  | JNull
  | JBool bool
  | JNum real
  | JNaN
  | JStr string
  | JArr "jsval list"
  | JObj "(string \<times> jsval) list"

type_synonym obj = "(string \<times> jsval) list"

text \<open>An error object thrown by the host itself (a \<open>TypeError\<close>, a \<open>SyntaxError\<close>).\<close>

record js_error =
  ename :: string
  emsg :: string

text \<open>
  The built-in functions of the host that the program calls and that are not part of it:
  the rendering of a number as a string, \<open>parseFloat\<close> on a string, \<open>toUpperCase\<close> on a
  string, and the host name of \<open>new URL(url)\<close>, which throws on a string that is not an
  absolute URL.
\<close>

record host =
  numberToString :: "real \<Rightarrow> string"
  parseFloat :: "string \<Rightarrow> jsval"
  upperCase :: "string \<Rightarrow> string"
  hostname :: "string \<Rightarrow> js_error + string"

fun truthy :: "jsval \<Rightarrow> bool" where
  "truthy JUndefined = False"
| "truthy JNull = False"
| "truthy (JBool b) = b"
| "truthy (JNum r) = (r \<noteq> 0)"
| "truthy JNaN = False"
| "truthy (JStr s) = (s \<noteq> [])"
| "truthy (JArr xs) = True"
| "truthy (JObj kvs) = True"

text \<open>\<open>a || b\<close>.\<close>

definition js_or :: "jsval \<Rightarrow> jsval \<Rightarrow> jsval" where
  "js_or a b = (if truthy a then a else b)"

fun join_comma :: "string list \<Rightarrow> string" where
  "join_comma [] = []"
| "join_comma [s] = s"
| "join_comma (s # t # ss) = s @ '','' @ join_comma (t # ss)"

text \<open>\<open>String(v)\<close>, also the conversion inside a template string.\<close>

fun js_String :: "(real \<Rightarrow> string) \<Rightarrow> jsval \<Rightarrow> string" where
  "js_String nts JUndefined = ''undefined''"
| "js_String nts JNull = ''null''"
| "js_String nts (JBool b) = (if b then ''true'' else ''false'')"
| "js_String nts (JNum r) = nts r"
| "js_String nts JNaN = ''NaN''"
| "js_String nts (JStr s) = s"
| "js_String nts (JArr xs) =
     join_comma (map (\<lambda>x. if x = JNull \<or> x = JUndefined then [] else js_String nts x) xs)"
| "js_String nts (JObj kvs) = ''[object Object]''"

text \<open>
  \<open>v.k\<close> on a value that is neither null nor undefined: an own property of an object, the
  length of an array or a string, and undefined otherwise.
\<close>

definition get :: "jsval \<Rightarrow> string \<Rightarrow> jsval" where
  "get v k =
     (case v of
        JObj kvs \<Rightarrow> (case map_of kvs k of None \<Rightarrow> JUndefined | Some x \<Rightarrow> x)
      | JArr xs \<Rightarrow> (if k = ''length'' then JNum (real (length xs)) else JUndefined)
      | JStr s \<Rightarrow> (if k = ''length'' then JNum (real (length s)) else JUndefined)
      | _ \<Rightarrow> JUndefined)"

text \<open>\<open>{ ...row, [k]: v }\<close>: the object with the property \<open>k\<close> set to \<open>v\<close>.\<close>

definition put :: "obj \<Rightarrow> string \<Rightarrow> jsval \<Rightarrow> obj" where
  "put row k v = (k, v) # filter (\<lambda>kv. fst kv \<noteq> k) row"

text \<open>The same read where the value may be null or undefined: then the host throws.\<close>

definition js_prop :: "jsval \<Rightarrow> string \<Rightarrow> js_error + jsval" where
  "js_prop v k =
     (if v = JNull \<or> v = JUndefined
      then Inl \<lparr>ename = ''TypeError'',
                emsg = ''Cannot read properties of '' @ js_String (\<lambda>r. []) v
                       @ '' (reading '' @ [CHR 0x27] @ k @ [CHR 0x27] @ '')''\<rparr>
      else Inr (get v k))"

definition isArray :: "jsval \<Rightarrow> bool" where
  "isArray v = (case v of JArr xs \<Rightarrow> True | _ \<Rightarrow> False)"

text \<open>\<open>Object.values(v)\<close> on a value that is neither null nor undefined.\<close>

definition Object_values :: "jsval \<Rightarrow> jsval list" where
  "Object_values v =
     (case v of
        JObj kvs \<Rightarrow> map snd kvs
      | JArr xs \<Rightarrow> xs
      | JStr s \<Rightarrow> map (\<lambda>c. JStr [c]) s
      | _ \<Rightarrow> [])"

text \<open>
  A host for the examples. Its \<open>parseFloat\<close> reads the decimal literals of the language:
  leading ASCII white space, a sign, digits, a fraction and an exponent, with NaN when no
  digit is found; the value is exact, and the literal \<open>Infinity\<close> and white space outside
  ASCII are not read. Its number rendering is right on whole numbers, its upper case on ASCII
  strings, and every URL has the host name \<open>wits.worldbank.org\<close>.
\<close>

definition is_digit :: "char \<Rightarrow> bool" where
  "is_digit c \<longleftrightarrow> 48 \<le> (of_char c :: nat) \<and> (of_char c :: nat) \<le> 57"

definition is_space :: "char \<Rightarrow> bool" where
  "is_space c \<longleftrightarrow> (of_char c :: nat) \<in> {9, 10, 11, 12, 13, 32}"

definition digits_value :: "string \<Rightarrow> nat" where
  "digits_value s = foldl (\<lambda>a c. 10 * a + ((of_char c :: nat) - 48)) 0 s"

definition parseFloat_dec :: "string \<Rightarrow> jsval" where
  "parseFloat_dec s =
     (let t = dropWhile is_space s;
          neg = (case t of [] \<Rightarrow> False | c # r \<Rightarrow> c = CHR ''-'');
          u = (case t of [] \<Rightarrow> [] | c # r \<Rightarrow> if c = CHR ''-'' \<or> c = CHR ''+'' then r else t);
          ip = takeWhile is_digit u;
          rest = dropWhile is_digit u;
          fp = (case rest of [] \<Rightarrow> [] | c # r \<Rightarrow> if c = CHR ''.'' then takeWhile is_digit r else []);
          rest2 = (case rest of [] \<Rightarrow> [] | c # r \<Rightarrow> if c = CHR ''.'' then dropWhile is_digit r else rest);
          ex = (case rest2 of [] \<Rightarrow> [] | c # r \<Rightarrow> if c = CHR ''e'' \<or> c = CHR ''E'' then r else []);
          eneg = (case ex of [] \<Rightarrow> False | c # r \<Rightarrow> c = CHR ''-'');
          ed = takeWhile is_digit
                 (case ex of [] \<Rightarrow> [] | c # r \<Rightarrow> if c = CHR ''-'' \<or> c = CHR ''+'' then r else ex);
          m = real (digits_value ip) + real (digits_value fp) / 10 ^ length fp
      in if ip = [] \<and> fp = [] then JNaN
         else JNum ((if neg then - 1 else 1)
                    * (if eneg then m / 10 ^ digits_value ed else m * 10 ^ digits_value ed)))"

definition example_host :: host where
  "example_host =
     \<lparr>numberToString = (\<lambda>r. String_int \<lfloor>r\<rfloor>),
      parseFloat = parseFloat_dec,
      upperCase = toUpperCase,
      hostname = (\<lambda>url. Inr ''wits.worldbank.org'')\<rparr>"


section \<open>The validators (validators.js)\<close>

text \<open>A row is an object; \<open>row[field]\<close> is undefined for a key it does not have.\<close>

definition TRADE_FACT_REQUIRED :: "string list" where
  "TRADE_FACT_REQUIRED = [''date'', ''frequency'', ''reporter_iso3'', ''partner_iso3'', ''flow'',
     ''product_level'', ''product_code'', ''value_usd'', ''source_id'', ''retrieval_ts'',
     ''request_fingerprint'']"

definition MACRO_FACT_REQUIRED :: "string list" where
  "MACRO_FACT_REQUIRED = [''date'', ''country_iso3'', ''indicator_code'', ''indicator_name'',
     ''value'', ''unit'', ''source_id'', ''retrieval_ts'', ''request_fingerprint'']"

definition VALID_FREQUENCIES :: "string list" where
  "VALID_FREQUENCIES = [''A'', ''M'']"

definition VALID_FLOWS :: "string list" where
  "VALID_FLOWS = [''IMPORT'', ''EXPORT'']"

definition VALID_PRODUCT_LEVELS :: "string list" where
  "VALID_PRODUCT_LEVELS = [''TOTAL'', ''GROUP'', ''HS2'', ''HS4'']"

record row_check =
  rvalid :: bool
  errors :: "string list"

text \<open>The loop over the required fields; \<open>nullable\<close> is the field whose null is let through.\<close>

definition required_errors :: "string \<Rightarrow> string list \<Rightarrow> obj \<Rightarrow> string list" where
  "required_errors nullable required row =
     foldl (\<lambda>errors field.
        if get (JObj row) field = JUndefined \<or> get (JObj row) field = JStr []
        then (if field = nullable \<and> get (JObj row) field = JNull then errors
              else errors @ [''Missing required field: '' @ field])
        else errors) [] required"

text \<open>\<open>list.includes(v)\<close> for a list of strings.\<close>

definition includes_str :: "string list \<Rightarrow> jsval \<Rightarrow> bool" where
  "includes_str xs v = (case v of JStr s \<Rightarrow> s \<in> set xs | _ \<Rightarrow> False)"

definition enum_error :: "host \<Rightarrow> string \<Rightarrow> string list \<Rightarrow> jsval \<Rightarrow> string list" where
  "enum_error H label allowed v =
     (if truthy v \<and> \<not> includes_str allowed v
      then [''Invalid '' @ label @ '': '' @ js_String (numberToString H) v] else [])"

definition iso3_error :: "host \<Rightarrow> string \<Rightarrow> jsval \<Rightarrow> string list" where
  "iso3_error H label v =
     (if truthy v \<and> get v ''length'' \<noteq> JNum 3
      then [label @ '' must be 3 chars: '' @ js_String (numberToString H) v] else [])"

definition validateTradeFact :: "host \<Rightarrow> obj \<Rightarrow> row_check" where
  "validateTradeFact H row =
     (let errors = required_errors ''value_usd'' TRADE_FACT_REQUIRED row
                   @ enum_error H ''frequency'' VALID_FREQUENCIES (get (JObj row) ''frequency'')
                   @ enum_error H ''flow'' VALID_FLOWS (get (JObj row) ''flow'')
                   @ enum_error H ''product_level'' VALID_PRODUCT_LEVELS (get (JObj row) ''product_level'')
                   @ iso3_error H ''reporter_iso3'' (get (JObj row) ''reporter_iso3'')
                   @ iso3_error H ''partner_iso3'' (get (JObj row) ''partner_iso3'')
      in \<lparr>rvalid = (length errors = 0), errors = errors\<rparr>)"

definition validateMacroFact :: "host \<Rightarrow> obj \<Rightarrow> row_check" where
  "validateMacroFact H row =
     (let errors = required_errors ''value'' MACRO_FACT_REQUIRED row
                   @ iso3_error H ''country_iso3'' (get (JObj row) ''country_iso3'')
      in \<lparr>rvalid = (length errors = 0), errors = errors\<rparr>)"


section \<open>The WITS normaliser (wits.js)\<close>

definition mapFlow :: "host \<Rightarrow> jsval \<Rightarrow> string" where
  "mapFlow H flowCode =
     (let c = upperCase H (js_String (numberToString H) flowCode) in
      if str_includes c ''EXPORT'' \<or> c = ''X'' \<or> c = ''2'' then ''EXPORT''
      else if str_includes c ''IMPORT'' \<or> c = ''M'' \<or> c = ''1'' then ''IMPORT''
      else c)"

text \<open>The inner loop of the series branch: the observations of one series are appended.\<close>

fun series_observations :: "jsval list \<Rightarrow> jsval list \<Rightarrow> js_error + jsval list" where
  "series_observations [] obs = Inr obs"
| "series_observations (s # ss) obs =
     (case js_prop s ''observations'' of
        Inl e \<Rightarrow> Inl e
      | Inr so \<Rightarrow> series_observations ss (if truthy so then obs @ Object_values so else obs))"

definition extractObservations :: "jsval \<Rightarrow> js_error + jsval list" where
  "extractObservations data =
     (case data of
        JArr xs \<Rightarrow> Inr xs
      | _ \<Rightarrow>
        (let dataSets = get data ''dataSets'';
             ds = (case dataSets of JArr (d # r) \<Rightarrow> d | _ \<Rightarrow> JUndefined);
             wrapped = (if truthy data \<and> (case data of JObj kvs \<Rightarrow> True | _ \<Rightarrow> False)
                        then (case find (\<lambda>key. isArray (get data key)) [''Dataset'', ''data'', ''wits'', ''Data''] of
                                Some key \<Rightarrow> Object_values (get data key)
                              | None \<Rightarrow> [])
                        else [])
         in if truthy data \<and> truthy dataSets \<and> isArray dataSets then
              (if truthy ds \<and> truthy (get ds ''observations'')
               then Inr (Object_values (get ds ''observations''))
               else if truthy ds \<and> truthy (get ds ''series'')
               then series_observations (Object_values (get ds ''series'')) []
               else Inr wrapped)
            else Inr wrapped))"

text \<open>The row built from one observation; reading a property of null or undefined throws.\<close>

definition witsRow :: "host \<Rightarrow> string \<Rightarrow> string \<Rightarrow> string \<Rightarrow> jsval \<Rightarrow> js_error + obj" where
  "witsRow H ts dsrc url obs =
     (case js_prop obs ''year'' of
        Inl e \<Rightarrow> Inl e
      | Inr year \<Rightarrow>
          Inr [(''date'', js_or year (js_or (get obs ''TimePeriod'') (JStr [])))
              ,(''frequency'', JStr ''A'')
              ,(''reporter_iso3'', js_or (get obs ''ReporterISO3'') (js_or (get obs ''reporter'') (JStr [])))
              ,(''partner_iso3'', js_or (get obs ''PartnerISO3'') (js_or (get obs ''partner'') (JStr [])))
              ,(''flow'', JStr (mapFlow H (js_or (get obs ''TradeFlowCode'')
                                            (js_or (get obs ''Indicator'') (JStr [])))))
              ,(''product_level'',
                  if get obs ''ProductCode'' = JStr ''TOTAL'' \<or> get obs ''ProductCode'' = JStr ''999999''
                  then JStr ''TOTAL'' else JStr ''GROUP'')
              ,(''product_code'', js_or (get obs ''ProductCode'') (JStr ''TOTAL''))
              ,(''product_name'', js_or (get obs ''ProductDescription'') (js_or (get obs ''Product'') (JStr [])))
              ,(''value_usd'', js_or (parseFloat H (js_String (numberToString H) (get obs ''Value''))) JNull)
              ,(''unit'', JStr ''USD'')
              ,(''source_id'', JStr (''wits:'' @ dsrc))
              ,(''retrieval_ts'', JStr ts)
              ,(''request_fingerprint'', JStr url)])"

fun push_rows ::
  "host \<Rightarrow> string \<Rightarrow> string \<Rightarrow> string \<Rightarrow> jsval list \<Rightarrow> obj list \<Rightarrow> js_error + obj list" where
  "push_rows H ts dsrc url [] rows = Inr rows"
| "push_rows H ts dsrc url (obs # rest) rows =
     (case witsRow H ts dsrc url obs of
        Inl e \<Rightarrow> Inl e
      | Inr row \<Rightarrow> push_rows H ts dsrc url rest (rows @ [row]))"

text \<open>\<open>normaliseWitsResponse\<close>; \<open>ts\<close> is the rendering of the wall clock at the call.\<close>

definition normaliseWitsResponse ::
  "host \<Rightarrow> string \<Rightarrow> jsval \<Rightarrow> string \<Rightarrow> string \<Rightarrow> js_error + obj list" where
  "normaliseWitsResponse H ts rawData dsrc url =
     (if \<not> truthy rawData then Inr []
      else (case extractObservations rawData of
              Inl e \<Rightarrow> Inl e
            | Inr observations \<Rightarrow> push_rows H ts dsrc url observations []))"


text \<open>Example rows and an example response.\<close>

definition trade_row :: "jsval \<Rightarrow> obj" where
  "trade_row v =
     [(''date'', JStr ''2020''), (''frequency'', JStr ''A''), (''reporter_iso3'', JStr ''IND''),
      (''partner_iso3'', JStr ''CHN''), (''flow'', JStr ''EXPORT''), (''product_level'', JStr ''TOTAL''),
      (''product_code'', JStr ''TOTAL''), (''product_name'', JStr []), (''value_usd'', v),
      (''unit'', JStr ''USD''), (''source_id'', JStr ''wits:tradestats-trade''),
      (''retrieval_ts'', JStr ''2024-01-01T00:00:00.000Z''), (''request_fingerprint'', JStr ''u'')]"

definition macro_row :: "jsval \<Rightarrow> obj" where
  "macro_row v =
     [(''date'', JStr ''2020''), (''country_iso3'', JStr ''IND''), (''indicator_code'', JStr ''NY.GDP.MKTP.CD''),
      (''indicator_name'', JStr ''GDP''), (''value'', v), (''unit'', JStr ''USD''),
      (''source_id'', JStr ''worldbank''), (''retrieval_ts'', JStr ''2024-01-01T00:00:00.000Z''),
      (''request_fingerprint'', JStr ''u'')]"

definition null_source_trade_row :: obj where
  "null_source_trade_row =
     [(''date'', JStr ''2020''), (''frequency'', JStr ''A''), (''reporter_iso3'', JStr ''IND''),
      (''partner_iso3'', JStr ''CHN''), (''flow'', JStr ''EXPORT''), (''product_level'', JStr ''TOTAL''),
      (''product_code'', JStr ''TOTAL''), (''product_name'', JStr []), (''value_usd'', JNum 5),
      (''unit'', JStr ''USD''), (''source_id'', JNull),
      (''retrieval_ts'', JStr ''2024-01-01T00:00:00.000Z''), (''request_fingerprint'', JStr ''u'')]"

definition null_source_macro_row :: obj where
  "null_source_macro_row =
     [(''date'', JStr ''2020''), (''country_iso3'', JStr ''IND''), (''indicator_code'', JStr ''NY.GDP.MKTP.CD''),
      (''indicator_name'', JStr ''GDP''), (''value'', JNum 5), (''unit'', JStr ''USD''),
      (''source_id'', JNull), (''retrieval_ts'', JStr ''2024-01-01T00:00:00.000Z''),
      (''request_fingerprint'', JStr ''u'')]"

definition no_source_row :: obj where
  "no_source_row =
     [(''date'', JStr ''2020''), (''frequency'', JStr ''A''), (''reporter_iso3'', JStr ''IND''),
      (''partner_iso3'', JStr ''CHN''), (''flow'', JStr ''EXPORT''), (''product_level'', JStr ''TOTAL''),
      (''product_code'', JStr ''TOTAL''), (''value_usd'', JNum 5),
      (''retrieval_ts'', JStr ''2024-01-01T00:00:00.000Z''), (''request_fingerprint'', JStr ''u'')]"

definition wits_raw :: jsval where
  "wits_raw = JObj [(''Dataset'',
     JArr [JObj [(''year'', JNum 2020), (''Value'', JStr ''0''), (''TradeFlowCode'', JStr ''X'')],
           JObj [(''year'', JNum 2021), (''Value'', JStr ''n/a''), (''TradeFlowCode'', JStr ''X'')],
           JObj [(''year'', JNum 2022), (''Value'', JStr ''12.5''), (''TradeFlowCode'', JStr ''M'')]])]"


section \<open>Feature flags (featureFlags.js)\<close>

text \<open>
  The two flags the fetcher reads. An override that is absent gives the frozen default, so
  \<open>flag\<close> is never undefined for them and the \<open>??\<close> fallbacks of the callers never apply.
\<close>

record flag_overrides =
  ov_maxRetries :: "int option"
  ov_retryBaseMs :: "real option"

definition flag_maxRetries :: "flag_overrides \<Rightarrow> int" where
  "flag_maxRetries ov = (case ov_maxRetries ov of None \<Rightarrow> 3 | Some v \<Rightarrow> v)"

definition flag_retryBaseMs :: "flag_overrides \<Rightarrow> real" where
  "flag_retryBaseMs ov = (case ov_retryBaseMs ov of None \<Rightarrow> 1000 | Some v \<Rightarrow> v)"


section \<open>The world of a fetch\<close>

text \<open>
  A response carries its status, the two headers that are read (\<open>None\<close> for a header that is
  not there), the result of reading its body in a given response type, which may throw, and
  the time it took. A call of \<open>fetch\<close> is answered by a response or rejected with an error.
\<close>

record 'p response =
  status :: int
  retry_after :: "string option"
  content_length :: "string option"
  body :: "string \<Rightarrow> js_error + 'p"
  elapsed :: real

datatype 'p outcome = Responds "'p response" | Rejects js_error

record 'p entry =
  cached_value :: 'p
  expires :: real

record event =
  ev_ts :: real
  ev_category :: string
  ev_action :: string
  ev_meta :: obj

record log_entry =
  log_ts :: real
  log_name :: string
  log_message :: string
  log_code :: "string option"

text \<open>
  The state outside the fetcher: the clock (\<open>Date.now()\<close>, in milliseconds), the connectivity
  flag, the two tiers of the cache (session storage holds the entries that parse back, and may
  refuse writes), the network as the outcome of the k-th call of \<open>fetch\<close> with the number of
  calls made so far, the draws of \<open>Math.random\<close> with the number taken, the sleeps made, the
  telemetry events, the error log and the flag overrides. Time passes while a response is
  awaited and during a sleep.
\<close>

record 'p world =
  clock :: real
  online :: bool
  mem :: "string \<rightharpoonup> 'p entry"
  session :: "string \<rightharpoonup> 'p entry"
  session_ok :: bool
  net :: "nat \<Rightarrow> 'p outcome"
  calls :: nat
  rand :: "nat \<Rightarrow> real"
  draws :: nat
  sleeps :: "real list"
  events :: "event list"
  err_log :: "log_entry list"
  overrides :: flag_overrides

definition MAX_EVENTS :: nat where
  "MAX_EVENTS = 500"

definition MAX_LOG :: nat where
  "MAX_LOG = 200"

definition track :: "string \<Rightarrow> string \<Rightarrow> obj \<Rightarrow> 'p world \<Rightarrow> 'p world" where
  "track category action meta w =
     (let evs = events w @ [\<lparr>ev_ts = clock w, ev_category = category, ev_action = action,
                             ev_meta = meta\<rparr>]
      in w\<lparr>events := (if length evs > MAX_EVENTS then tl evs else evs)\<rparr>)"

definition logError :: "app_error \<Rightarrow> 'p world \<Rightarrow> 'p world" where
  "logError err w =
     (let l = err_log w @ [\<lparr>log_ts = clock w, log_name = name err, log_message = message err,
                            log_code = code err\<rparr>]
      in w\<lparr>err_log := (if length l > MAX_LOG then tl l else l)\<rparr>)"

definition sleep :: "real \<Rightarrow> 'p world \<Rightarrow> 'p world" where
  "sleep ms w = w\<lparr>sleeps := sleeps w @ [ms], clock := clock w + max ms 0\<rparr>"

definition backoff :: "nat \<Rightarrow> 'p world \<Rightarrow> real \<times> 'p world" where
  "backoff attempt w =
     (let base = flag_retryBaseMs (overrides w)
      in (base * 2 ^ attempt + rand w (draws w) * 500, w\<lparr>draws := draws w + 1\<rparr>))"


section \<open>The cache (cache.js)\<close>

text \<open>\<open>fingerprint(url)\<close> with no parameters: the URL, a bar and the empty object.\<close>

definition fingerprint :: "string \<Rightarrow> string" where
  "fingerprint url = url @ ''|'' @ ''{}''"

text \<open>\<open>get\<close>: memory first, then session storage; \<open>None\<close> is undefined, a miss.\<close>

definition cache_get :: "string \<Rightarrow> 'p world \<Rightarrow> 'p option \<times> 'p world" where
  "cache_get key w =
     (case (case mem w key of
              Some m \<Rightarrow> if clock w < expires m then Some m else None
            | None \<Rightarrow> None)
      of Some m \<Rightarrow>
           (Some (cached_value m),
            track ''cache'' ''cache_hit'' [(''store'', JStr ''memory''), (''key'', JStr key)] w)
       | None \<Rightarrow>
           (case session w (''cache:'' @ key) of
              Some parsed \<Rightarrow>
                if clock w < expires parsed
                then (Some (cached_value parsed),
                      (track ''cache'' ''cache_hit'' [(''store'', JStr ''session''), (''key'', JStr key)] w)
                        \<lparr>mem := (mem w)(key \<mapsto> parsed)\<rparr>)
                else (None,
                      track ''cache'' ''cache_miss'' [(''key'', JStr key)]
                        (w\<lparr>session := (session w)(''cache:'' @ key := None)\<rparr>))
            | None \<Rightarrow> (None, track ''cache'' ''cache_miss'' [(''key'', JStr key)] w)))"

text \<open>
  \<open>set\<close>: the time to live is always passed by the fetcher, so the default of the parameter
  is never taken; a refused write to session storage is ignored.
\<close>

definition cache_set :: "string \<Rightarrow> 'p \<Rightarrow> real \<Rightarrow> 'p world \<Rightarrow> 'p world" where
  "cache_set key v ttlMs w =
     (let entry = \<lparr>cached_value = v, expires = clock w + ttlMs\<rparr>
      in w\<lparr>mem := (mem w)(key \<mapsto> entry),
           session := (if session_ok w then (session w)(''cache:'' @ key \<mapsto> entry) else session w)\<rparr>)"


section \<open>The fetcher (fetchers.js)\<close>

definition MAX_PAYLOAD_BYTES :: int where
  "MAX_PAYLOAD_BYTES = 10 * 1024 * 1024"

text \<open>\<open>parseInt(s, 10)\<close>: ASCII white space, a sign and digits; \<open>None\<close> is NaN.\<close>

definition parseInt10 :: "string \<Rightarrow> int option" where
  "parseInt10 s =
     (let t = dropWhile is_space s;
          neg = (case t of [] \<Rightarrow> False | c # r \<Rightarrow> c = CHR ''-'');
          u = (case t of [] \<Rightarrow> [] | c # r \<Rightarrow> if c = CHR ''-'' \<or> c = CHR ''+'' then r else t);
          ds = takeWhile is_digit u
      in if ds = [] then None
         else Some ((if neg then - 1 else 1) * int (digits_value ds)))"

text \<open>The options of \<open>robustFetch\<close>; an absent key takes the default of the destructuring.\<close>

record fetch_opts =
  cacheTtlMs :: "real option"
  maxRetries :: "int option"
  responseType :: "string option"
  cacheKey :: "string option"

text \<open>What is thrown out of \<open>robustFetch\<close>, and what one pass of the loop body ends in.\<close>

datatype thrown = ThrownApp app_error | ThrownHost js_error | ThrownUndefined

datatype caught = App app_error | Host js_error

datatype 'p tried = Done 'p | Continue app_error | Caught caught

datatype 'p pass = Returned 'p | Threw thrown | Next app_error

text \<open>
  The branches of the \<open>try\<close> block on a response: a 429, a status from 500 on, another
  status outside 200 to 299, and a success (the payload guard, the body, the cache).
\<close>

definition on_429 :: "host \<Rightarrow> string \<Rightarrow> nat \<Rightarrow> 'p response \<Rightarrow> 'p world \<Rightarrow> 'p tried \<times> 'p world" where
  "on_429 H url attempt resp w =
     (let retryAfter = parseInt10 (case retry_after resp of
                                     None \<Rightarrow> ''0''
                                   | Some h \<Rightarrow> if h = [] then ''0'' else h)
      in case hostname H url of
           Inl e \<Rightarrow> (Caught (Host e), w)
         | Inr hn \<Rightarrow>
             (let err = RateLimitError hn retryAfter;
                  w1 = logError err w;
                  ww = (case retryAfter of
                          Some ra \<Rightarrow> if ra > 0 then (of_int ra * 1000, w1) else backoff attempt w1
                        | None \<Rightarrow> backoff attempt w1)
              in (Continue err, sleep (fst ww) (snd ww))))"

definition on_5xx :: "host \<Rightarrow> string \<Rightarrow> nat \<Rightarrow> 'p response \<Rightarrow> 'p world \<Rightarrow> 'p tried \<times> 'p world" where
  "on_5xx H url attempt resp w =
     (case hostname H url of
        Inl e \<Rightarrow> (Caught (Host e), w)
      | Inr hn \<Rightarrow>
          (let err = ServerError hn (status resp);
               w1 = logError err w;
               ww = backoff attempt w1
           in (Continue err, sleep (fst ww) (snd ww))))"

definition on_not_ok :: "host \<Rightarrow> string \<Rightarrow> 'p response \<Rightarrow> 'p world \<Rightarrow> 'p tried \<times> 'p world" where
  "on_not_ok H url resp w =
     (case hostname H url of
        Inl e \<Rightarrow> (Caught (Host e), w)
      | Inr hn \<Rightarrow>
          (Caught (App (NetworkError (''HTTP '' @ String_int (status resp) @ '' from '' @ url)
                          (no_opts\<lparr>o_source := Some hn, o_retryable := Some False\<rparr>))),
           w))"

definition too_large :: "'p response \<Rightarrow> bool" where
  "too_large resp =
     (case content_length resp of
        None \<Rightarrow> False
      | Some cl \<Rightarrow> cl \<noteq> [] \<and> (case parseInt10 cl of None \<Rightarrow> False | Some b \<Rightarrow> b > MAX_PAYLOAD_BYTES))"

definition on_ok ::
  "host \<Rightarrow> string \<Rightarrow> string \<Rightarrow> real \<Rightarrow> string \<Rightarrow> 'p response \<Rightarrow> 'p world \<Rightarrow> 'p tried \<times> 'p world" where
  "on_ok H url key ttl rtype resp w =
     (if too_large resp then
        (case hostname H url of
           Inl e \<Rightarrow> (Caught (Host e), w)
         | Inr hn \<Rightarrow> (Caught (App (PayloadTooLargeError hn)), w))
      else
        (case body resp rtype of
           Inl e \<Rightarrow> (Caught (Host e), w)
         | Inr data \<Rightarrow> (Done data, cache_set key data ttl w)))"

text \<open>The \<open>try\<close> block for one attempt.\<close>

definition try_attempt ::
  "host \<Rightarrow> string \<Rightarrow> string \<Rightarrow> real \<Rightarrow> string \<Rightarrow> nat \<Rightarrow> 'p world \<Rightarrow> 'p tried \<times> 'p world" where
  "try_attempt H url key ttl rtype attempt w0 =
     (let w1 = track ''fetch'' ''attempt'' [(''url'', JStr url), (''attempt'', JNum (real attempt))] w0
      in case net w1 (calls w1) of
           Rejects e \<Rightarrow> (Caught (Host e), w1\<lparr>calls := calls w1 + 1\<rparr>)
         | Responds resp \<Rightarrow>
             (let w2 = w1\<lparr>calls := calls w1 + 1, clock := clock w1 + elapsed resp\<rparr>;
                  w3 = track ''fetch'' ''response''
                         [(''url'', JStr url), (''status'', JNum (of_int (status resp))),
                          (''ms'', JNum (of_int \<lfloor>elapsed resp + 1 / 2\<rfloor>))] w2
              in if status resp = 429 then on_429 H url attempt resp w3
                 else if status resp \<ge> 500 then on_5xx H url attempt resp w3
                 else if \<not> (200 \<le> status resp \<and> status resp \<le> 299) then on_not_ok H url resp w3
                 else on_ok H url key ttl rtype resp w3))"

text \<open>The \<open>catch\<close> block: what is thrown on, or the error kept for the next attempt.\<close>

definition catch_attempt ::
  "host \<Rightarrow> string \<Rightarrow> int \<Rightarrow> nat \<Rightarrow> caught \<Rightarrow> 'p world \<Rightarrow> 'p pass \<times> 'p world" where
  "catch_attempt H url retries attempt err w =
     (if (case err of App e \<Rightarrow> cls e = PayloadTooLargeErrorC | Host e \<Rightarrow> False)
      then (Threw (case err of App e \<Rightarrow> ThrownApp e | Host e \<Rightarrow> ThrownHost e), w)
      else if (case err of
                 App e \<Rightarrow> name e = ''TypeError'' \<and> str_includes (message e) ''Failed to fetch''
               | Host e \<Rightarrow> ename e = ''TypeError'' \<and> str_includes (emsg e) ''Failed to fetch'')
      then
        (if \<not> online w
         then (let lastErr = NetworkError ''Offline'' (no_opts\<lparr>o_source := Some url\<rparr>)
               in (Threw (ThrownApp lastErr), logError lastErr w))
         else (case hostname H url of
                 Inl e \<Rightarrow> (Threw (ThrownHost e), w)
               | Inr hn \<Rightarrow> (Threw (ThrownApp (CorsError hn)), logError (CorsError hn) w)))
      else
        (case (case err of
                 App e \<Rightarrow> if retryable e = False then Inl e else Inr (e, w)
               | Host e \<Rightarrow>
                   (let lastErr = NetworkError (emsg e) (no_opts\<lparr>o_source := Some url\<rparr>)
                    in Inr (lastErr, logError lastErr w)))
         of Inl e \<Rightarrow> (Threw (ThrownApp e), w)
          | Inr (lastErr, w1) \<Rightarrow>
              (Next lastErr,
               if int attempt < retries
               then (let ww = backoff attempt w1 in sleep (fst ww) (snd ww))
               else w1)))"

text \<open>One pass of the loop body.\<close>

definition attempt_pass ::
  "host \<Rightarrow> string \<Rightarrow> string \<Rightarrow> real \<Rightarrow> int \<Rightarrow> string \<Rightarrow> nat \<Rightarrow> 'p world \<Rightarrow> 'p pass \<times> 'p world" where
  "attempt_pass H url key ttl retries rtype attempt w =
     (case try_attempt H url key ttl rtype attempt w of
        (Done data, w1) \<Rightarrow> (Returned data, w1)
      | (Continue err, w1) \<Rightarrow> (Next err, w1)
      | (Caught err, w1) \<Rightarrow> catch_attempt H url retries attempt err w1)"

text \<open>The retry loop, from attempt \<open>attempt\<close> on, with the last error kept so far.\<close>

function fetch_loop ::
  "host \<Rightarrow> string \<Rightarrow> string \<Rightarrow> real \<Rightarrow> int \<Rightarrow> string \<Rightarrow> nat \<Rightarrow> app_error option \<Rightarrow> 'p world
     \<Rightarrow> (thrown + 'p) \<times> 'p world" where
  "fetch_loop H url key ttl retries rtype attempt lastErr w =
     (if int attempt \<le> retries then
        (case attempt_pass H url key ttl retries rtype attempt w of
           (Returned data, w1) \<Rightarrow> (Inr data, w1)
         | (Threw t, w1) \<Rightarrow> (Inl t, w1)
         | (Next err, w1) \<Rightarrow> fetch_loop H url key ttl retries rtype (attempt + 1) (Some err) w1)
      else (Inl (case lastErr of None \<Rightarrow> ThrownUndefined | Some e \<Rightarrow> ThrownApp e), w))"
  by pat_completeness auto
termination
  by (relation "measure (\<lambda>(H, url, key, ttl, retries, rtype, attempt, lastErr, w).
        nat (retries + 1 - int attempt))") auto

declare fetch_loop.simps [simp del]

definition cache_key :: "string \<Rightarrow> fetch_opts \<Rightarrow> string" where
  "cache_key url opts =
     (case cacheKey opts of
        None \<Rightarrow> fingerprint url
      | Some k \<Rightarrow> if k = [] then fingerprint url else k)"

definition retries_of :: "fetch_opts \<Rightarrow> 'p world \<Rightarrow> int" where
  "retries_of opts w =
     (case maxRetries opts of None \<Rightarrow> flag_maxRetries (overrides w) | Some m \<Rightarrow> m)"

definition ttl_of :: "fetch_opts \<Rightarrow> real" where
  "ttl_of opts = (case cacheTtlMs opts of None \<Rightarrow> 30 * 60 * 1000 | Some t \<Rightarrow> t)"

definition rtype_of :: "fetch_opts \<Rightarrow> string" where
  "rtype_of opts = (case responseType opts of None \<Rightarrow> ''json'' | Some t \<Rightarrow> t)"

definition robustFetch :: "host \<Rightarrow> string \<Rightarrow> fetch_opts \<Rightarrow> 'p world \<Rightarrow> (thrown + 'p) \<times> 'p world" where
  "robustFetch H url opts w =
     (let ttl = ttl_of opts;
          retries = retries_of opts w;
          rtype = rtype_of opts;
          key = cache_key url opts
      in case cache_get key w of
           (Some cached, w1) \<Rightarrow> (Inr cached, w1)
         | (None, w1) \<Rightarrow> fetch_loop H url key ttl retries rtype 0 None w1)"

text \<open>
  For stating the results: that the responses to the next calls of \<open>fetch\<close> have given
  statuses, and the response to the k-th next call.
\<close>

fun statuses_from :: "(nat \<Rightarrow> 'p outcome) \<Rightarrow> nat \<Rightarrow> int list \<Rightarrow> bool" where
  "statuses_from nt k [] = True"
| "statuses_from nt k (st # sts) =
     ((case nt k of Responds r \<Rightarrow> status r = st | Rejects e \<Rightarrow> False)
      \<and> statuses_from nt (Suc k) sts)"

definition next_statuses :: "'p world \<Rightarrow> int list \<Rightarrow> bool" where
  "next_statuses w sts = statuses_from (net w) (calls w) sts"

definition next_response :: "'p world \<Rightarrow> nat \<Rightarrow> 'p response option" where
  "next_response w k = (case net w (calls w + k) of Responds r \<Rightarrow> Some r | Rejects e \<Rightarrow> None)"

text \<open>Example worlds: a cold cache, and a network that answers with a list of responses.\<close>

definition plain_response :: "int \<Rightarrow> jsval response" where
  "plain_response st =
     \<lparr>status = st, retry_after = None, content_length = None,
      body = (\<lambda>rtype. Inr (JObj [(''status'', JNum (of_int st))])), elapsed = 120\<rparr>"

definition cold_world :: "int list \<Rightarrow> jsval world" where
  "cold_world sts =
     \<lparr>clock = 0, online = True, mem = Map.empty, session = Map.empty, session_ok = True,
      net = (\<lambda>k. if k < length sts then Responds (plain_response (sts ! k))
                  else Rejects \<lparr>ename = ''TypeError'', emsg = ''Failed to fetch''\<rparr>),
      calls = 0, rand = (\<lambda>k. 1 / 2), draws = 0, sleeps = [], events = [], err_log = [],
      overrides = \<lparr>ov_maxRetries = None, ov_retryBaseMs = None\<rparr>\<rparr>"

definition default_opts :: fetch_opts where
  "default_opts = \<lparr>cacheTtlMs = None, maxRetries = None, responseType = None, cacheKey = None\<rparr>"

definition wits_url :: string where
  "wits_url = ''https://wits.worldbank.org/API/V1/SDMX/V21/datasource/tradestats-trade''"

text \<open>The world a first call leaves behind, and a world some milliseconds later.\<close>

definition first_world :: "int list \<Rightarrow> jsval world" where
  "first_world sts = snd (robustFetch example_host wits_url default_opts (cold_world sts))"

definition later :: "real \<Rightarrow> 'p world \<Rightarrow> 'p world" where
  "later ms w = w\<lparr>clock := clock w + ms\<rparr>"



section \<open>Properties of the query planner\<close>

lemma allDims_reporter_iff:
  "''reporter'' \<in> set (filter (is_all ps) DIMS) \<longleftrightarrow> is_all ps ''reporter''"
  by (auto simp: DIMS_def)

lemma allDims_partner_iff:
  "''partner'' \<in> set (filter (is_all ps) DIMS) \<longleftrightarrow> is_all ps ''partner''"
  by (auto simp: DIMS_def)

lemma specific_find_none:
  "find (is_all ps) (filter (\<lambda>d. d \<notin> set (filter (is_all ps) DIMS)) DIMS) = None"
  by (auto simp: find_None_iff)

lemma validate_valid_iff:
  "valid (validate ps) \<longleftrightarrow>
     length (filter (is_all ps) DIMS) \<le> 2 \<and> \<not> (is_all ps ''reporter'' \<and> is_all ps ''partner'')"
  unfolding validate_def Let_def specific_find_none allDims_reporter_iff allDims_partner_iff
  by auto

lemma digit_char_small: "k < 10 \<Longrightarrow> (of_char (digit_char k) :: nat) < 65"
  by (simp add: digit_char_def)

lemma digits_of_small: "c \<in> set (digits_of n) \<Longrightarrow> (of_char c :: nat) < 65"
proof (induction n arbitrary: c rule: digits_of.induct)
  case (1 n)
  show ?case
  proof (cases "n < 10")
    case True
    with "1.prems" have "c = digit_char n"
      by (simp add: digits_of.simps [of n])
    with True show ?thesis
      by (simp add: digit_char_small)
  next
    case False
    with "1.prems" have "c \<in> set (digits_of (n div 10)) \<or> c = digit_char (n mod 10)"
      by (auto simp: digits_of.simps [of n])
    then show ?thesis
    proof
      assume "c \<in> set (digits_of (n div 10))"
      with False "1.IH" show ?thesis by blast
    next
      assume "c = digit_char (n mod 10)"
      then show ?thesis by (simp add: digit_char_small)
    qed
  qed
qed

lemma String_int_small: "c \<in> set (String_int i) \<Longrightarrow> (of_char c :: nat) < 65"
  by (auto simp: String_int_def dest: digits_of_small split: if_splits)

lemma String_int_not_all: "toLowerCase (String_int i) \<noteq> ''all''"
proof
  assume a: "toLowerCase (String_int i) = ''all''"
  have "map lower_char (String_int i) = String_int i"
    by (rule map_idI) (auto simp: lower_char_def Let_def dest: String_int_small)
  with a have "String_int i = ''all''"
    by (simp add: toLowerCase_def)
  then have "CHR ''a'' \<in> set (String_int i)"
    by simp
  then show False
    by (auto dest: String_int_small)
qed

lemma is_all_year_upd [simp]: "\<not> is_all (ps(''year'' \<mapsto> String_int yr)) ''year''"
  by (simp add: is_all_def String_param_def String_int_not_all)

lemma is_all_other_upd [simp]: "d \<noteq> ''year'' \<Longrightarrow> is_all (ps(''year'' \<mapsto> v)) d = is_all ps d"
  by (simp add: is_all_def String_param_def)

lemma valid_year_upd: "valid (validate (ps(''year'' \<mapsto> String_int yr))) = year_legal ps"
  by (simp add: validate_valid_iff year_legal_def DIMS_def)

lemma chunk_years_eq:
  "chunk_years ds ps yr endY chunks =
     chunks @ (if year_legal ps then per_year_plan ds ps yr endY else [])"
proof (induction ds ps yr endY chunks rule: chunk_years.induct)
  case (1 ds ps yr endY chunks)
  show ?case
  proof (cases "yr \<le> endY")
    case True
    then have u: "[yr..endY] = yr # [yr + 1..endY]"
      by (simp add: upto_rec1)
    show ?thesis
      using True "1.IH" [OF True refl refl]
      by (subst chunk_years.simps) (simp add: Let_def valid_year_upd u per_year_plan_def)
  next
    case False
    then show ?thesis
      by (subst chunk_years.simps) (simp add: per_year_plan_def)
  qed
qed

lemma chunk_blocks_eq:
  "chunk_blocks ds ps y hi chunks =
     chunks @ (if year_legal ps then per_year_plan ds ps y hi else [])"
proof (induction ds ps y hi chunks rule: chunk_blocks.induct)
  case (1 ds ps y hi chunks)
  show ?case
  proof (cases "y \<le> hi")
    case True
    have "[y..hi] = [y..min (y + 4) hi] @ [min (y + 4) hi + 1..hi]"
      using True by (intro upto_split2) simp_all
    moreover have "[min (y + 4) hi + 1..hi] = [y + 5..hi]"
      by (cases "y + 4 \<le> hi") (simp_all add: min_def add.commute)
    ultimately have u: "[y..hi] = [y..min (y + 4) hi] @ [y + 5..hi]"
      by simp
    show ?thesis
      using True "1.IH" [OF True refl]
      by (subst chunk_blocks.simps) (simp add: Let_def chunk_years_eq u per_year_plan_def)
  next
    case False
    then show ?thesis
      by (subst chunk_blocks.simps) (simp add: per_year_plan_def)
  qed
qed

text \<open>
  C4. A query with at most two of the five dimensions wildcarded, and not both the reporter
  and the partner, comes back from \<open>chunk\<close> unchanged, as the only element of the plan,
  whatever the year range.
\<close>

theorem chunk_legal_unchanged:
  assumes "length (filter (is_all ps) DIMS) \<le> 2"
    and "\<not> (is_all ps ''reporter'' \<and> is_all ps ''partner'')"
  shows "chunk ds ps yearRange = Inr [\<lparr>datasource = ds, qparams = ps\<rparr>]"
proof -
  from assms have "valid (validate ps)"
    by (simp add: validate_valid_iff)
  then show ?thesis
    by (simp add: chunk_def Let_def)
qed

lemmas planner_eval =
  DIMS_def is_all_def String_param_def toLowerCase_def lower_char_def char_of_def bit_0

theorem chunk_legal_unchanged_witness:
  "length (filter (is_all q_ind_chn) DIMS) \<le> 2
   \<and> \<not> (is_all q_ind_chn ''reporter'' \<and> is_all q_ind_chn ''partner'')
   \<and> chunk ''tradestats-trade'' q_ind_chn (Some (2000, 2024))
       = Inr [\<lparr>datasource = ''tradestats-trade'', qparams = q_ind_chn\<rparr>]"
proof -
  have h1: "length (filter (is_all q_ind_chn) DIMS) \<le> 2"
    by (simp add: planner_eval q_ind_chn_def)
  have h2: "\<not> (is_all q_ind_chn ''reporter'' \<and> is_all q_ind_chn ''partner'')"
    by (simp add: planner_eval q_ind_chn_def)
  from chunk_legal_unchanged [OF h1 h2] h1 h2 show ?thesis
    by blast
qed

text \<open>
  When the query is illegal, \<open>chunk\<close> returns the per-year plan for the whole range exactly
  when the query with a specific year is legal; otherwise no sub-query survives and it throws.
\<close>

lemma chunk_illegal:
  assumes "\<not> valid (validate ps)"
  shows "chunk ds ps (Some (lo, hi)) =
           (if year_legal ps \<and> lo \<le> hi then Inr (per_year_plan ds ps lo hi)
            else Inl (WitsLimitError (case reason (validate ps) of None \<Rightarrow> ''undefined'' | Some r \<Rightarrow> r)))"
  using assms by (simp add: chunk_def Let_def chunk_blocks_eq per_year_plan_def)

lemma per_year_plan_valid:
  "year_legal ps \<Longrightarrow> q \<in> set (per_year_plan ds ps lo hi) \<Longrightarrow> valid (validate (qparams q))"
  by (auto simp: per_year_plan_def valid_year_upd)

lemma chunk_three_wildcards_example:
  "chunk ''tradestats-trade'' q_ind_all3 (Some (2000, 2002))
     = Inr (per_year_plan ''tradestats-trade'' q_ind_all3 2000 2002)"
proof -
  have "\<not> valid (validate q_ind_all3)"
    by (simp add: validate_valid_iff planner_eval q_ind_all3_def)
  moreover have "year_legal q_ind_all3"
    by (simp add: year_legal_def planner_eval q_ind_all3_def)
  ultimately show ?thesis
    by (simp add: chunk_illegal)
qed

lemma allDims_ge3:
  assumes "is_all ps ''reporter''" and "is_all ps ''partner''" and "is_all ps ''year''"
  shows "length (filter (is_all ps) DIMS) > 2"
  using assms by (simp add: DIMS_def)

text \<open>
  C1, as the code has it. A query with reporter, partner and year all wildcarded is never
  decomposed: substituting a specific year leaves the reporter and the partner wildcarded, so
  every per-year candidate fails \<open>validate\<close>, no sub-query is kept, and \<open>chunk\<close> throws the
  \<open>WitsLimitError\<close> that carries the reason of the original validation, for every year range.
\<close>

theorem chunk_reporter_partner_year_all:
  assumes "is_all ps ''reporter''" and "is_all ps ''partner''" and "is_all ps ''year''"
  shows "chunk ds ps yearRange =
           Inl (WitsLimitError (String_int (int (length (filter (is_all ps) DIMS)))
                                @ '' dimensions set to ALL; max 2 allowed.''))
         \<and> \<not> valid (validate (ps(''year'' \<mapsto> String_int yr)))"
proof -
  have n: "length (filter (is_all ps) DIMS) > 2"
    using assms by (rule allDims_ge3)
  then have inv: "\<not> valid (validate ps)"
    by (simp add: validate_valid_iff)
  from n have r: "reason (validate ps) =
      Some (String_int (int (length (filter (is_all ps) DIMS))) @ '' dimensions set to ALL; max 2 allowed.'')"
    by (simp add: validate_def Let_def)
  have nl: "\<not> year_legal ps"
    using assms by (simp add: year_legal_def)
  obtain lo hi where yr: "(case yearRange of None \<Rightarrow> default_yearRange | Some r \<Rightarrow> r) = (lo, hi)"
    by (cases "case yearRange of None \<Rightarrow> default_yearRange | Some r \<Rightarrow> r") simp
  have "chunk ds ps yearRange = chunk ds ps (Some (lo, hi))"
    using yr by (simp add: chunk_def)
  with inv nl r show ?thesis
    by (simp add: chunk_illegal valid_year_upd)
qed

theorem chunk_reporter_partner_year_all_witness:
  "is_all q_all5 ''reporter'' \<and> is_all q_all5 ''partner'' \<and> is_all q_all5 ''year''
   \<and> chunk ''tradestats-tariff'' q_all5 None
       = Inl (WitsLimitError ''5 dimensions set to ALL; max 2 allowed.'')
   \<and> \<not> valid (validate (q_all5(''year'' \<mapsto> String_int 2024)))"
proof -
  have h1: "is_all q_all5 ''reporter''" and h2: "is_all q_all5 ''partner''"
    and h3: "is_all q_all5 ''year''"
    by (simp_all add: planner_eval q_all5_def)
  have n: "filter (is_all q_all5) DIMS = DIMS"
    by (simp add: planner_eval q_all5_def)
  have d: "String_int (int (length DIMS)) = ''5''"
    by (simp add: DIMS_def String_int_def digits_of.simps digit_char_def char_of_def bit_0)
  from chunk_reporter_partner_year_all [OF h1 h2 h3, of "''tradestats-tariff''" None 2024]
  show ?thesis
    using h1 h2 h3 by (simp add: n d)
qed

text \<open>
  The claim as stated fails: on the query with \<open>reporter = all\<close>, \<open>partner = all\<close>,
  \<open>year = all\<close> and the range 2000 to 2002, \<open>chunk\<close> returns no plan at all.
\<close>

theorem chunk_all_all_all_counterexample:
  "is_all q_all3 ''reporter'' \<and> is_all q_all3 ''partner'' \<and> is_all q_all3 ''year''
   \<and> chunk ''tradestats-trade'' q_all3 (Some (2000, 2002))
       = Inl (WitsLimitError ''3 dimensions set to ALL; max 2 allowed.'')"
proof -
  have a: "filter (is_all q_all3) DIMS = [''reporter'', ''year'', ''partner'']"
    by (simp add: planner_eval q_all3_def)
  have inv: "\<not> valid (validate q_all3)"
    by (simp add: validate_valid_iff a)
  have r: "reason (validate q_all3) = Some ''3 dimensions set to ALL; max 2 allowed.''"
    by (simp add: validate_def Let_def a String_int_def digits_of.simps digit_char_def char_of_def bit_0)
  have nl: "\<not> year_legal q_all3"
    by (simp add: year_legal_def planner_eval q_all3_def)
  show ?thesis
    using inv r nl by (simp add: chunk_illegal planner_eval q_all3_def)
qed


section \<open>Properties of the forecast engine\<close>

lemma foldl_push: "foldl (\<lambda>acc x. acc @ [f x]) acc xs = acc @ map f xs"
  by (induction xs arbitrary: acc) simp_all

lemma foldl_push_if:
  "foldl (\<lambda>acc x. if P x then acc @ [f x] else acc) acc xs = acc @ map f (filter P xs)"
  by (induction xs arbitrary: acc) simp_all

lemma foldl_plus: "foldl (\<lambda>a b. a + b) (a :: real) xs = a + sum_list xs"
  by (induction xs arbitrary: a) simp_all

lemma seasonalNaive_short:
  "length values \<le> s \<Longrightarrow> seasonalNaive values s hz = replicate hz None"
  by (simp add: seasonalNaive_def)

lemma seasonalNaive_long:
  assumes "0 < s" and "s < length values"
  shows "seasonalNaive values s hz =
           map (\<lambda>h. map_option (\<lambda>b. b + mean_diff values s * of_int \<lceil>real h / real s\<rceil>)
                      (values ! (length values - s + (h - 1) mod s)))
             [1..<hz + 1]"
proof -
  let ?n = "length values"
  have diffs: "foldl (\<lambda>diffs i.
                  if values ! i \<noteq> None \<and> values ! (i - s) \<noteq> None
                  then diffs @ [the (values ! i) - the (values ! (i - s))]
                  else diffs) [] [s..<?n] = valid_diffs values s"
    by (simp add: foldl_push_if valid_diffs_def)
  have avg: "(if length (valid_diffs values s) > 0
              then foldl (\<lambda>a b. a + b) 0 (valid_diffs values s) / real (length (valid_diffs values s))
              else 0) = mean_diff values s"
    by (simp add: mean_diff_def foldl_plus)
  have idx: "int ?n - int s + int ((h - 1) mod s) \<ge> 0 \<and>
             int ?n - int s + int ((h - 1) mod s) < int ?n" 
    and idx': "nat (int ?n - int s + int ((h - 1) mod s)) = ?n - s + (h - 1) mod s" for h
  proof -
    have "(h - 1) mod s < s"
      using assms(1) by simp
    with assms(2) show "int ?n - int s + int ((h - 1) mod s) \<ge> 0 \<and>
             int ?n - int s + int ((h - 1) mod s) < int ?n"
      and "nat (int ?n - int s + int ((h - 1) mod s)) = ?n - s + (h - 1) mod s"
      by linarith+
  qed
  have opt: "(if base \<noteq> None then Some (the base + c) else None) = map_option (\<lambda>b. b + c) base"
    for base :: "real option" and c
    by (cases base) simp_all
  have body: "(\<lambda>forecast h.
              (let sIdx = int ?n - int s + int ((h - 1) mod s);
                   base = (if sIdx \<ge> 0 \<and> sIdx < int ?n then values ! nat sIdx else values ! (?n - 1))
               in forecast @ [if base \<noteq> None
                              then Some (the base + c * of_int \<lceil>real h / real s\<rceil>)
                              else None]))
            = (\<lambda>forecast h. forecast @ [map_option (\<lambda>b. b + c * of_int \<lceil>real h / real s\<rceil>)
                      (values ! (?n - s + (h - 1) mod s))])" for c :: real
    by (intro ext) (simp only: Let_def idx idx' opt if_True simp_thms)
  from assms(2) have "\<not> ?n < s + 1"
    by simp
  then show ?thesis
    unfolding seasonalNaive_def Let_def diffs avg
    by (simp only: body [unfolded Let_def] if_False foldl_push append_Nil)
qed

text \<open>
  C7. A history no longer than the season gives a forecast of the requested length, all null.
  A longer history gives, at step \<open>h\<close>, the base value at position
  \<open>n - s + (h - 1) mod s\<close> of the history plus the mean of the valid seasonal differences
  times \<open>\<lceil>h / s\<rceil>\<close>; a null base value gives a null step.
\<close>

theorem seasonalNaive_forecast:
  "(length values \<le> s \<longrightarrow>
      seasonalNaive values s hz = replicate hz None
      \<and> length (seasonalNaive values s hz) = hz)
   \<and> (0 < s \<and> s < length values \<longrightarrow>
      length (seasonalNaive values s hz) = hz
      \<and> (\<forall>h. 1 \<le> h \<and> h \<le> hz \<longrightarrow>
            seasonalNaive values s hz ! (h - 1) =
              map_option (\<lambda>b. b + mean_diff values s * of_int \<lceil>real h / real s\<rceil>)
                (values ! (length values - s + (h - 1) mod s))))"
proof (intro conjI impI allI)
  assume "length values \<le> s"
  then show "seasonalNaive values s hz = replicate hz None"
    and "length (seasonalNaive values s hz) = hz"
    by (simp_all add: seasonalNaive_short)
next
  assume a: "0 < s \<and> s < length values"
  then show "length (seasonalNaive values s hz) = hz"
    by (simp add: seasonalNaive_long)
next
  fix h
  assume a: "0 < s \<and> s < length values" and h: "1 \<le> h \<and> h \<le> hz"
  from h have "[1..<hz + 1] ! (h - 1) = h" and "h - 1 < length [1..<hz + 1]"
    by (auto simp del: upt_Suc)
  then show "seasonalNaive values s hz ! (h - 1) =
              map_option (\<lambda>b. b + mean_diff values s * of_int \<lceil>real h / real s\<rceil>)
                (values ! (length values - s + (h - 1) mod s))"
    using a by (simp add: seasonalNaive_long del: upt_Suc)
qed

lemma mean_diff_example: "mean_diff [Some 1, Some 2, Some 4, None, Some 7] 2 = 3"
  by (simp add: mean_diff_def valid_diffs_def upt_rec)

theorem seasonalNaive_forecast_witness:
  "seasonalNaive [Some 1, Some 2] 2 3 = [None, None, None]
   \<and> length (seasonalNaive [Some 1, Some 2, Some 4, None, Some 7] 2 5) = 5
   \<and> seasonalNaive [Some 1, Some 2, Some 4, None, Some 7] 2 5 ! 3 = Some 13
   \<and> seasonalNaive [Some 1, Some 2, Some 4, None, Some 7] 2 5 ! 2 = None"
proof -
  have short: "seasonalNaive [Some 1, Some 2] 2 3 = [None, None, None]"
    using seasonalNaive_forecast [of "[Some 1, Some 2]" 2 3]
    by (simp add: numeral_eq_Suc)
  have long: "length (seasonalNaive [Some 1, Some 2, Some 4, None, Some 7] 2 5) = 5
      \<and> (\<forall>h. 1 \<le> h \<and> h \<le> 5 \<longrightarrow>
            seasonalNaive [Some 1, Some 2, Some 4, None, Some 7] 2 5 ! (h - 1) =
              map_option (\<lambda>b. b + 3 * of_int \<lceil>real h / 2\<rceil>)
                ([Some 1, Some 2, Some 4, None, Some 7] ! (3 + (h - 1) mod 2)))"
    using seasonalNaive_forecast [of "[Some 1, Some 2, Some 4, None, Some 7]" 2 5]
    by (simp add: mean_diff_example)
  from long have "seasonalNaive [Some 1, Some 2, Some 4, None, Some 7] 2 5 ! (4 - 1) =
              map_option (\<lambda>b. b + 3 * of_int \<lceil>real 4 / 2\<rceil>)
                ([Some 1, Some 2, Some 4, None, Some 7] ! (3 + (4 - 1) mod 2))"
    by (elim conjE allE [of _ 4]) simp
  then have s4: "seasonalNaive [Some 1, Some 2, Some 4, None, Some 7] 2 5 ! 3 = Some 13"
    by simp
  from long have "seasonalNaive [Some 1, Some 2, Some 4, None, Some 7] 2 5 ! (3 - 1) =
              map_option (\<lambda>b. b + 3 * of_int \<lceil>real 3 / 2\<rceil>)
                ([Some 1, Some 2, Some 4, None, Some 7] ! (3 + (3 - 1) mod 2))"
    by (elim conjE allE [of _ 3]) simp
  then have s3: "seasonalNaive [Some 1, Some 2, Some 4, None, Some 7] 2 5 ! 2 = None"
    by simp
  from short long s4 s3 show ?thesis
    by blast
qed

text \<open>
  With season period 1, \<open>\<alpha> = 1\<close> and \<open>\<beta> = 0\<close>, on a series without nulls the smoothing
  loop leaves the level at the last observation and never changes the trend.
\<close>

lemma hw_step_random_walk:
  "j < length xs \<Longrightarrow> hw_step 1 0 g (Suc 0) (map Some xs) (level, trend, [0]) j = (xs ! j, trend, [0])"
  by (simp add: hw_step_def)

lemma hw_loop_random_walk:
  assumes "j \<le> length xs"
  shows "foldl (hw_step 1 0 g (Suc 0) (map Some xs)) (level, trend, [0]) [0..<j] =
           (if j = 0 then level else xs ! (j - 1), trend, [0])"
  using assms
proof (induction j)
  case 0
  then show ?case by simp
next
  case (Suc j)
  then have "foldl (hw_step 1 0 g (Suc 0) (map Some xs)) (level, trend, [0]) [0..<j] =
           (if j = 0 then level else xs ! (j - 1), trend, [0])"
    by simp
  with Suc.prems show ?case
    by (simp add: hw_step_random_walk)
qed

lemma holtWinters_random_walk:
  assumes "2 \<le> length xs"
  shows "holtWinters (map Some xs)
           \<lparr>alpha = Some 1, beta = Some 0, gamma = Some g, seasonPeriod = Some 1, horizon = Some hz\<rparr>
         = map (\<lambda>h. Some (last xs + (xs ! 1 - xs ! 0) * real h)) [1..<hz + 1]"
proof -
  from assms obtain x0 x1 rest where xs: "xs = x0 # x1 # rest"
    by (cases xs; cases "tl xs") auto
  have loop: "foldl (hw_step 1 0 g (Suc 0) (map Some xs)) (x0, x1 - x0, [0]) [0..<length xs] =
           (last xs, x1 - x0, [0])"
    using hw_loop_random_walk [of "length xs" xs g x0 "x1 - x0"] assms
    by (simp add: last_conv_nth xs)
  have init: "hw_state 1 0 g (Suc 0) (map Some xs) = (last xs, xs ! 1 - xs ! 0, [0])"
    unfolding hw_state_def Let_def
    using loop by (simp add: slice_def or0_def xs)
  from assms show ?thesis
    by (simp add: holtWinters_def Let_def init foldl_push del: upt_Suc)
qed

text \<open>
  C8. On the series 100, 110, 121, 133.1 with season period 1, \<open>\<alpha> = 1\<close>, \<open>\<beta> = 0\<close> and
  \<open>\<gamma> = 0\<close>, the final level is the last observation 133.1, the trend is still its initial
  value 10, and the forecast at step \<open>h\<close> is \<open>133.1 + 10 h\<close>, for every horizon.
\<close>

theorem holtWinters_drift:
  "hw_state 1 0 0 1 [Some 100, Some 110, Some 121, Some 133.1] = (133.1, 110 - 100, [0])
   \<and> holtWinters [Some 100, Some 110, Some 121, Some 133.1]
        \<lparr>alpha = Some 1, beta = Some 0, gamma = Some 0, seasonPeriod = Some 1, horizon = Some hz\<rparr>
      = map (\<lambda>h. Some (133.1 + (110 - 100) * real h)) [1..<hz + 1]"
proof
  show "hw_state 1 0 0 1 [Some 100, Some 110, Some 121, Some 133.1] = (133.1, 110 - 100, [0])"
    by (simp add: hw_state_def hw_step_def slice_def or0_def Let_def upt_rec)
  show "holtWinters [Some 100, Some 110, Some 121, Some 133.1]
        \<lparr>alpha = Some 1, beta = Some 0, gamma = Some 0, seasonPeriod = Some 1, horizon = Some hz\<rparr>
      = map (\<lambda>h. Some (133.1 + (110 - 100) * real h)) [1..<hz + 1]"
    using holtWinters_random_walk [of "[100, 110, 121, 133.1]" 0 hz]
    by simp
qed

theorem holtWinters_drift_witness:
  "holtWinters [Some 100, Some 110, Some 121, Some 133.1]
        \<lparr>alpha = Some 1, beta = Some 0, gamma = Some 0, seasonPeriod = Some 1, horizon = Some 3\<rparr>
      = [Some 143.1, Some 153.1, Some 163.1]"
  using holtWinters_drift [of 3] by (simp add: upt_rec)

text \<open>
  C9. When fewer than \<open>testSize + 3\<close> observations remain after the nulls are dropped,
  \<open>rollingEval\<close> returns null metrics and no residuals; the forecast function is not called,
  so nothing is thrown, whatever that function would do.
\<close>

theorem rollingEval_short:
  assumes "int (length (filter (\<lambda>v. v \<noteq> None) values)) < testSize + 3"
  shows "rollingEval values testSize fcFn = Inr \<lparr>rmse = None, mape = None, residuals = []\<rparr>"
  using assms by (simp add: rollingEval_def)

theorem rollingEval_short_witness:
  "int (length (filter (\<lambda>v. v \<noteq> None) [Some 1, None, Some 2, Some 3, Some (4 :: real)])) < 2 + 3
   \<and> rollingEval [Some 1, None, Some 2, Some 3, Some 4] 2 (\<lambda>train. Inl ''thrown'')
       = Inr \<lparr>rmse = None, mape = None, residuals = []\<rparr>"
proof -
  have h: "int (length (filter (\<lambda>v. v \<noteq> None) [Some 1, None, Some 2, Some 3, Some (4 :: real)])) < 2 + 3"
    by simp
  from rollingEval_short [OF h] h show ?thesis
    by blast
qed


section \<open>Properties of the validators\<close>

lemma required_loop:
  "foldl (\<lambda>errors field.
        if get (JObj row) field = JUndefined \<or> get (JObj row) field = JStr []
        then (if field = nullable \<and> get (JObj row) field = JNull then errors
              else errors @ [''Missing required field: '' @ field])
        else errors) acc required
   = acc @ map (\<lambda>f. ''Missing required field: '' @ f)
             (filter (\<lambda>f. get (JObj row) f = JUndefined \<or> get (JObj row) f = JStr []) required)"
  by (induction required arbitrary: acc) auto

lemma required_errors_eq:
  "required_errors nullable required row =
     map (\<lambda>f. ''Missing required field: '' @ f)
       (filter (\<lambda>f. get (JObj row) f = JUndefined \<or> get (JObj row) f = JStr []) required)"
  by (simp add: required_errors_def required_loop)

lemma map_of_filter_key:
  "map_of (filter (\<lambda>kv. fst kv \<noteq> k) row) f = (if f = k then None else map_of row f)"
  by (induction row) auto

lemma get_put [simp]:
  "get (JObj (put row k v)) f = (if f = k then v else get (JObj row) f)"
  by (simp add: get_def put_def map_of_filter_key)

lemma required_errors_nil_iff:
  "required_errors nullable required row = [] \<longleftrightarrow>
     (\<forall>f \<in> set required. get (JObj row) f \<noteq> JUndefined \<and> get (JObj row) f \<noteq> JStr [])"
  by (auto simp: required_errors_eq filter_empty_conv)

lemma validateTradeFact_null_value:
  "validateTradeFact H (put row ''value_usd'' JNull) = validateTradeFact H (put row ''value_usd'' (JNum v))"
proof -
  have "required_errors ''value_usd'' TRADE_FACT_REQUIRED (put row ''value_usd'' JNull)
        = required_errors ''value_usd'' TRADE_FACT_REQUIRED (put row ''value_usd'' (JNum v))"
    unfolding required_errors_eq
    by (intro arg_cong [where f = "map _"] filter_cong refl) simp
  then show ?thesis
    by (simp add: validateTradeFact_def)
qed

lemma validateTradeFact_valid_null:
  assumes "rvalid (validateTradeFact H row)"
  shows "rvalid (validateTradeFact H (put row ''value_usd'' JNull))"
proof -
  from assms have r: "required_errors ''value_usd'' TRADE_FACT_REQUIRED row = []"
    and rest: "enum_error H ''frequency'' VALID_FREQUENCIES (get (JObj row) ''frequency'') = []"
      "enum_error H ''flow'' VALID_FLOWS (get (JObj row) ''flow'') = []"
      "enum_error H ''product_level'' VALID_PRODUCT_LEVELS (get (JObj row) ''product_level'') = []"
      "iso3_error H ''reporter_iso3'' (get (JObj row) ''reporter_iso3'') = []"
      "iso3_error H ''partner_iso3'' (get (JObj row) ''partner_iso3'') = []"
    by (simp_all add: validateTradeFact_def Let_def)
  from r have "required_errors ''value_usd'' TRADE_FACT_REQUIRED (put row ''value_usd'' JNull) = []"
    by (simp add: required_errors_nil_iff)
  with rest show ?thesis
    by (simp add: validateTradeFact_def Let_def)
qed

lemma validateMacroFact_valid_null:
  assumes "rvalid (validateMacroFact H row)"
  shows "rvalid (validateMacroFact H (put row ''value'' JNull))"
proof -
  from assms have r: "required_errors ''value'' MACRO_FACT_REQUIRED row = []"
    and rest: "iso3_error H ''country_iso3'' (get (JObj row) ''country_iso3'') = []"
    by (simp_all add: validateMacroFact_def Let_def)
  from r have "required_errors ''value'' MACRO_FACT_REQUIRED (put row ''value'' JNull) = []"
    by (simp add: required_errors_nil_iff)
  with rest show ?thesis
    by (simp add: validateMacroFact_def Let_def)
qed

lemma missing_source_id:
  assumes "get (JObj row) ''source_id'' = JUndefined" and "''source_id'' \<in> set required"
  shows "''Missing required field: source_id'' \<in> set (required_errors nullable required row)"
  using assms by (auto simp: required_errors_eq)

text \<open>
  The two instances hold of the code: nulling the value field of a valid row leaves it valid,
  for trade rows (\<open>value_usd\<close>) and macro rows (\<open>value\<close>); a row without \<open>source_id\<close> is
  invalid, and the errors reported contain \<open>Missing required field: source_id\<close>.
\<close>

lemma validators_null_value_missing_source:
  "(rvalid (validateTradeFact H row) \<longrightarrow> rvalid (validateTradeFact H (put row ''value_usd'' JNull)))
   \<and> (rvalid (validateMacroFact H row) \<longrightarrow> rvalid (validateMacroFact H (put row ''value'' JNull)))
   \<and> (get (JObj row) ''source_id'' = JUndefined \<longrightarrow>
        \<not> rvalid (validateTradeFact H row)
        \<and> ''Missing required field: source_id'' \<in> set (errors (validateTradeFact H row))
        \<and> \<not> rvalid (validateMacroFact H row)
        \<and> ''Missing required field: source_id'' \<in> set (errors (validateMacroFact H row)))"
proof (intro conjI impI)
  assume "rvalid (validateTradeFact H row)"
  then show "rvalid (validateTradeFact H (put row ''value_usd'' JNull))"
    by (rule validateTradeFact_valid_null)
next
  assume "rvalid (validateMacroFact H row)"
  then show "rvalid (validateMacroFact H (put row ''value'' JNull))"
    by (rule validateMacroFact_valid_null)
next
  assume a: "get (JObj row) ''source_id'' = JUndefined"
  have t: "''Missing required field: source_id'' \<in> set (required_errors ''value_usd'' TRADE_FACT_REQUIRED row)"
    using a by (rule missing_source_id) (simp add: TRADE_FACT_REQUIRED_def)
  have m: "''Missing required field: source_id'' \<in> set (required_errors ''value'' MACRO_FACT_REQUIRED row)"
    using a by (rule missing_source_id) (simp add: MACRO_FACT_REQUIRED_def)
  from t show "''Missing required field: source_id'' \<in> set (errors (validateTradeFact H row))"
    by (simp add: validateTradeFact_def Let_def)
  from t show "\<not> rvalid (validateTradeFact H row)"
    by (auto simp: validateTradeFact_def Let_def)
  from m show "''Missing required field: source_id'' \<in> set (errors (validateMacroFact H row))"
    by (simp add: validateMacroFact_def Let_def)
  from m show "\<not> rvalid (validateMacroFact H row)"
    by (auto simp: validateMacroFact_def Let_def)
qed

lemmas validator_eval =
  validateTradeFact_def validateMacroFact_def required_errors_def enum_error_def iso3_error_def
  includes_str_def get_def Let_def TRADE_FACT_REQUIRED_def MACRO_FACT_REQUIRED_def
  VALID_FREQUENCIES_def VALID_FLOWS_def VALID_PRODUCT_LEVELS_def

lemma validators_null_value_missing_source_example:
  "rvalid (validateTradeFact example_host (trade_row (JNum 5)))
   \<and> rvalid (validateTradeFact example_host (put (trade_row (JNum 5)) ''value_usd'' JNull))
   \<and> rvalid (validateMacroFact example_host (macro_row (JNum 5)))
   \<and> rvalid (validateMacroFact example_host (put (macro_row (JNum 5)) ''value'' JNull))
   \<and> get (JObj no_source_row) ''source_id'' = JUndefined
   \<and> \<not> rvalid (validateTradeFact example_host no_source_row)
   \<and> ''Missing required field: source_id'' \<in> set (errors (validateTradeFact example_host no_source_row))"
proof -
  have t: "rvalid (validateTradeFact example_host (trade_row (JNum 5)))"
    by (simp add: validator_eval trade_row_def)
  have m: "rvalid (validateMacroFact example_host (macro_row (JNum 5)))"
    by (simp add: validator_eval macro_row_def)
  have s: "get (JObj no_source_row) ''source_id'' = JUndefined"
    by (simp add: get_def no_source_row_def)
  from validators_null_value_missing_source [of example_host "trade_row (JNum 5)"] t
  have t': "rvalid (validateTradeFact example_host (put (trade_row (JNum 5)) ''value_usd'' JNull))"
    by blast
  from validators_null_value_missing_source [of example_host "macro_row (JNum 5)"] m
  have m': "rvalid (validateMacroFact example_host (put (macro_row (JNum 5)) ''value'' JNull))"
    by blast
  from validators_null_value_missing_source [of example_host no_source_row] s
  have s': "\<not> rvalid (validateTradeFact example_host no_source_row)
    \<and> ''Missing required field: source_id'' \<in> set (errors (validateTradeFact example_host no_source_row))"
    by blast
  from t t' m m' s s' show ?thesis
    by blast
qed

text \<open>
  The exemption of the value field is dead code. The loop tests a required field for
  \<open>undefined\<close> and for the empty string only, and the exemption sits inside that test and
  asks for \<open>null\<close>: it is never reached, and the field named as exempt plays no role.
\<close>

lemma nullable_irrelevant:
  "required_errors n1 required row = required_errors n2 required row"
  by (simp add: required_errors_eq)

lemma required_null_passes:
  assumes "get (JObj row) f = JNull"
  shows "''Missing required field: '' @ f \<notin> set (required_errors nullable required row)"
  using assms by (auto simp: required_errors_eq)

lemma trade_row_null_valid: "validateTradeFact H (trade_row JNull) = \<lparr>rvalid = True, errors = []\<rparr>"
  by (simp add: validator_eval trade_row_def)

lemma macro_row_null_valid: "validateMacroFact H (macro_row JNull) = \<lparr>rvalid = True, errors = []\<rparr>"
  by (simp add: validator_eval macro_row_def)

lemma trade_row_undefined_invalid:
  "validateTradeFact H (trade_row JUndefined) =
     \<lparr>rvalid = False, errors = [''Missing required field: value_usd'']\<rparr>"
  by (simp add: validator_eval trade_row_def)

lemma source_id_swapped:
  assumes "rvalid (validateTradeFact H row)"
  shows "rvalid (validateTradeFact H (put row ''source_id'' JNull))"
proof -
  from assms have r: "required_errors ''value_usd'' TRADE_FACT_REQUIRED row = []"
    and rest: "enum_error H ''frequency'' VALID_FREQUENCIES (get (JObj row) ''frequency'') = []"
      "enum_error H ''flow'' VALID_FLOWS (get (JObj row) ''flow'') = []"
      "enum_error H ''product_level'' VALID_PRODUCT_LEVELS (get (JObj row) ''product_level'') = []"
      "iso3_error H ''reporter_iso3'' (get (JObj row) ''reporter_iso3'') = []"
      "iso3_error H ''partner_iso3'' (get (JObj row) ''partner_iso3'') = []"
    by (simp_all add: validateTradeFact_def Let_def)
  from r have "required_errors ''value_usd'' TRADE_FACT_REQUIRED (put row ''source_id'' JNull) = []"
    by (simp add: required_errors_nil_iff)
  with rest show ?thesis
    by (simp add: validateTradeFact_def Let_def)
qed

text \<open>
  C6. The validators do not treat the value field differently from the other required
  fields. A trade row and a macro row whose \<open>source_id\<close> is null, with every other field in
  order, are valid with no error reported, exactly like the rows whose value is null; the
  missing \<open>source_id\<close> is not named.
\<close>

theorem validators_null_source_id_accepted:
  "validateTradeFact H null_source_trade_row = \<lparr>rvalid = True, errors = []\<rparr>
   \<and> validateMacroFact H null_source_macro_row = \<lparr>rvalid = True, errors = []\<rparr>
   \<and> validateTradeFact H (trade_row JNull) = validateTradeFact H null_source_trade_row
   \<and> validateMacroFact H (macro_row JNull) = validateMacroFact H null_source_macro_row"
  by (simp add: validator_eval null_source_trade_row_def null_source_macro_row_def
      trade_row_def macro_row_def)

theorem validators_null_source_id_accepted_witness:
  "get (JObj null_source_trade_row) ''source_id'' = JNull
   \<and> rvalid (validateTradeFact example_host null_source_trade_row)
   \<and> errors (validateTradeFact example_host null_source_trade_row) = []
   \<and> get (JObj null_source_macro_row) ''source_id'' = JNull
   \<and> rvalid (validateMacroFact example_host null_source_macro_row)
   \<and> errors (validateMacroFact example_host null_source_macro_row) = []"
proof -
  have "get (JObj null_source_trade_row) ''source_id'' = JNull"
    and "get (JObj null_source_macro_row) ''source_id'' = JNull"
    by (simp_all add: get_def null_source_trade_row_def null_source_macro_row_def)
  with validators_null_source_id_accepted [of example_host] show ?thesis
    by simp
qed


section \<open>Properties of the WITS normaliser\<close>

lemma witsRow_total:
  assumes "obs \<noteq> JNull" and "obs \<noteq> JUndefined"
  shows "\<exists>row. witsRow H ts dsrc url obs = Inr row
           \<and> get (JObj row) ''value_usd''
               = js_or (parseFloat H (js_String (numberToString H) (get obs ''Value''))) JNull"
  using assms by (simp add: witsRow_def js_prop_def get_def)

lemma push_rows_total:
  assumes "\<forall>obs \<in> set observations. obs \<noteq> JNull \<and> obs \<noteq> JUndefined"
  shows "\<exists>new. push_rows H ts dsrc url observations rows = Inr (rows @ new)
           \<and> length new = length observations
           \<and> (\<forall>i < length observations.
                 get (JObj (new ! i)) ''value_usd''
                   = js_or (parseFloat H (js_String (numberToString H) (get (observations ! i) ''Value''))) JNull)"
  using assms
proof (induction observations arbitrary: rows)
  case Nil
  then show ?case by simp
next
  case (Cons obs rest)
  from Cons.prems obtain row where row: "witsRow H ts dsrc url obs = Inr row"
    and v: "get (JObj row) ''value_usd''
               = js_or (parseFloat H (js_String (numberToString H) (get obs ''Value''))) JNull"
    using witsRow_total [of obs H ts dsrc url] by auto
  from Cons.prems have "\<forall>obs \<in> set rest. obs \<noteq> JNull \<and> obs \<noteq> JUndefined"
    by simp
  from Cons.IH [OF this, of "rows @ [row]"] obtain new where
    new: "push_rows H ts dsrc url rest (rows @ [row]) = Inr ((rows @ [row]) @ new)"
    and len: "length new = length rest"
    and vs: "\<forall>i < length rest.
                 get (JObj (new ! i)) ''value_usd''
                   = js_or (parseFloat H (js_String (numberToString H) (get (rest ! i) ''Value''))) JNull"
    by blast
  have "push_rows H ts dsrc url (obs # rest) rows = Inr (rows @ (row # new))"
    using row new by simp
  moreover have "length (row # new) = length (obs # rest)"
    using len by simp
  moreover have "\<forall>i < length (obs # rest).
                 get (JObj ((row # new) ! i)) ''value_usd''
                   = js_or (parseFloat H (js_String (numberToString H) (get ((obs # rest) ! i) ''Value''))) JNull"
    using v vs by (auto simp: nth_Cons split: nat.splits)
  ultimately show ?case
    by blast
qed

text \<open>
  C10. When no observation is null or undefined, \<open>normaliseWitsResponse\<close> returns one row per
  observation, and the row of an observation whose \<open>Value\<close> parses to 0 or to NaN has
  \<open>value_usd = null\<close>: a zero is not kept as the number 0.
\<close>

theorem normalise_zero_value_null:
  assumes "truthy rawData"
    and "extractObservations rawData = Inr observations"
    and "\<forall>obs \<in> set observations. obs \<noteq> JNull \<and> obs \<noteq> JUndefined"
  shows "\<exists>rows. normaliseWitsResponse H ts rawData dsrc url = Inr rows
           \<and> length rows = length observations
           \<and> (\<forall>i < length observations.
                 parseFloat H (js_String (numberToString H) (get (observations ! i) ''Value'')) = JNum 0
                 \<or> parseFloat H (js_String (numberToString H) (get (observations ! i) ''Value'')) = JNaN
                 \<longrightarrow> get (JObj (rows ! i)) ''value_usd'' = JNull)"
proof -
  from push_rows_total [OF assms(3), of H ts dsrc url "[]"] obtain new where
    new: "push_rows H ts dsrc url observations [] = Inr new"
    and len: "length new = length observations"
    and vs: "\<forall>i < length observations.
                 get (JObj (new ! i)) ''value_usd''
                   = js_or (parseFloat H (js_String (numberToString H) (get (observations ! i) ''Value''))) JNull"
    by auto
  have "normaliseWitsResponse H ts rawData dsrc url = Inr new"
    using assms(1,2) new by (simp add: normaliseWitsResponse_def)
  moreover have "\<forall>i < length observations.
                 parseFloat H (js_String (numberToString H) (get (observations ! i) ''Value'')) = JNum 0
                 \<or> parseFloat H (js_String (numberToString H) (get (observations ! i) ''Value'')) = JNaN
                 \<longrightarrow> get (JObj (new ! i)) ''value_usd'' = JNull"
    using vs by (auto simp: js_or_def)
  ultimately show ?thesis
    using len by blast
qed

lemma wits_raw_observations:
  "extractObservations wits_raw =
     Inr [JObj [(''year'', JNum 2020), (''Value'', JStr ''0''), (''TradeFlowCode'', JStr ''X'')],
          JObj [(''year'', JNum 2021), (''Value'', JStr ''n/a''), (''TradeFlowCode'', JStr ''X'')],
          JObj [(''year'', JNum 2022), (''Value'', JStr ''12.5''), (''TradeFlowCode'', JStr ''M'')]]"
  by (simp add: extractObservations_def wits_raw_def get_def isArray_def Object_values_def)

lemma parseFloat_dec_examples:
  "parseFloat_dec ''0'' = JNum 0" "parseFloat_dec ''n/a'' = JNaN" "parseFloat_dec ''12.5'' = JNum 12.5"
  by (simp_all add: parseFloat_dec_def is_digit_def is_space_def digits_value_def)

theorem normalise_zero_value_null_witness:
  "truthy wits_raw
   \<and> (\<exists>rows. normaliseWitsResponse example_host ''2024-01-01T00:00:00.000Z'' wits_raw
                ''tradestats-trade'' ''u'' = Inr rows
         \<and> length rows = 3
         \<and> get (JObj (rows ! 0)) ''value_usd'' = JNull
         \<and> get (JObj (rows ! 1)) ''value_usd'' = JNull)"
proof -
  have h1: "truthy wits_raw"
    by (simp add: wits_raw_def)
  have h3: "\<forall>obs \<in> set [JObj [(''year'', JNum 2020), (''Value'', JStr ''0''), (''TradeFlowCode'', JStr ''X'')],
          JObj [(''year'', JNum 2021), (''Value'', JStr ''n/a''), (''TradeFlowCode'', JStr ''X'')],
          JObj [(''year'', JNum 2022), (''Value'', JStr ''12.5''), (''TradeFlowCode'', JStr ''M'')]].
          obs \<noteq> JNull \<and> obs \<noteq> JUndefined"
    by simp
  from normalise_zero_value_null [OF h1 wits_raw_observations h3,
      of example_host "''2024-01-01T00:00:00.000Z''" "''tradestats-trade''" "''u''"]
  obtain rows where r: "normaliseWitsResponse example_host ''2024-01-01T00:00:00.000Z'' wits_raw
                ''tradestats-trade'' ''u'' = Inr rows"
    and len: "length rows = 3"
    and vs: "\<forall>i < 3.
       parseFloat example_host (js_String (numberToString example_host)
          (get ([JObj [(''year'', JNum 2020), (''Value'', JStr ''0''), (''TradeFlowCode'', JStr ''X'')],
          JObj [(''year'', JNum 2021), (''Value'', JStr ''n/a''), (''TradeFlowCode'', JStr ''X'')],
          JObj [(''year'', JNum 2022), (''Value'', JStr ''12.5''), (''TradeFlowCode'', JStr ''M'')]] ! i) ''Value'')) = JNum 0
       \<or> parseFloat example_host (js_String (numberToString example_host)
          (get ([JObj [(''year'', JNum 2020), (''Value'', JStr ''0''), (''TradeFlowCode'', JStr ''X'')],
          JObj [(''year'', JNum 2021), (''Value'', JStr ''n/a''), (''TradeFlowCode'', JStr ''X'')],
          JObj [(''year'', JNum 2022), (''Value'', JStr ''12.5''), (''TradeFlowCode'', JStr ''M'')]] ! i) ''Value'')) = JNaN
       \<longrightarrow> get (JObj (rows ! i)) ''value_usd'' = JNull"
    by auto
  from vs [rule_format, of 0] have v0: "get (JObj (rows ! 0)) ''value_usd'' = JNull"
    by (simp add: example_host_def get_def parseFloat_dec_examples)
  from vs [rule_format, of 1] have v1: "get (JObj (rows ! 1)) ''value_usd'' = JNull"
    by (simp add: example_host_def get_def parseFloat_dec_examples)
  from h1 r len v0 v1 show ?thesis
    by blast
qed

text \<open>The rows of the example response, evaluated: the zero and the unparsable value are null.\<close>

lemma normalise_example_values:
  "map_sum id (map (\<lambda>row. get (JObj row) ''value_usd''))
     (normaliseWitsResponse example_host ts wits_raw dsrc url) = Inr [JNull, JNull, JNum 12.5]"
  by (simp add: normaliseWitsResponse_def wits_raw_observations witsRow_def js_prop_def get_def
      js_or_def example_host_def parseFloat_dec_examples)
    (simp add: wits_raw_def)


section \<open>Properties of the fetcher\<close>

text \<open>What the primitive operations leave alone.\<close>

lemma track_frame [simp]:
  "net (track c a m w) = net w" "calls (track c a m w) = calls w"
  "sleeps (track c a m w) = sleeps w" "mem (track c a m w) = mem w"
  "err_log (track c a m w) = err_log w" "overrides (track c a m w) = overrides w"
  "clock (track c a m w) = clock w" "online (track c a m w) = online w"
  "rand (track c a m w) = rand w" "draws (track c a m w) = draws w"
  "session (track c a m w) = session w" "session_ok (track c a m w) = session_ok w"
  by (simp_all add: track_def Let_def)

lemma logError_frame [simp]:
  "net (logError e w) = net w" "calls (logError e w) = calls w"
  "sleeps (logError e w) = sleeps w" "mem (logError e w) = mem w"
  "overrides (logError e w) = overrides w"
  "clock (logError e w) = clock w" "online (logError e w) = online w"
  "rand (logError e w) = rand w" "draws (logError e w) = draws w"
  by (simp_all add: logError_def Let_def)

lemma sleep_frame [simp]:
  "net (sleep ms w) = net w" "calls (sleep ms w) = calls w"
  "sleeps (sleep ms w) = sleeps w @ [ms]" "mem (sleep ms w) = mem w"
  "err_log (sleep ms w) = err_log w" "overrides (sleep ms w) = overrides w"
  by (simp_all add: sleep_def)

lemma backoff_frame [simp]:
  "net (snd (backoff k w)) = net w" "calls (snd (backoff k w)) = calls w"
  "sleeps (snd (backoff k w)) = sleeps w" "mem (snd (backoff k w)) = mem w"
  "err_log (snd (backoff k w)) = err_log w" "overrides (snd (backoff k w)) = overrides w"
  "fst (backoff k w) = flag_retryBaseMs (overrides w) * 2 ^ k + rand w (draws w) * 500"
  by (simp_all add: backoff_def Let_def)

lemma cache_set_frame [simp]:
  "net (cache_set key v ttl w) = net w" "calls (cache_set key v ttl w) = calls w"
  "sleeps (cache_set key v ttl w) = sleeps w" "err_log (cache_set key v ttl w) = err_log w"
  "overrides (cache_set key v ttl w) = overrides w" "clock (cache_set key v ttl w) = clock w"
  "mem (cache_set key v ttl w) key = Some \<lparr>cached_value = v, expires = clock w + ttl\<rparr>"
  by (simp_all add: cache_set_def Let_def)

lemma cache_get_frame [simp]:
  "net (snd (cache_get key w)) = net w"
  "calls (snd (cache_get key w)) = calls w"
  "sleeps (snd (cache_get key w)) = sleeps w"
  "err_log (snd (cache_get key w)) = err_log w"
  "overrides (snd (cache_get key w)) = overrides w"
  by (simp_all add: cache_get_def split: option.splits)

text \<open>One pass of the loop body, by the kind of response.\<close>

lemma pass_429:
  assumes "net w (calls w) = Responds r" and "status r = 429" and "hostname H url = Inr hn"
  shows "\<exists>ra w'. attempt_pass H url key ttl retries rtype attempt w = (Next (RateLimitError hn ra), w')
           \<and> net w' = net w \<and> calls w' = calls w + 1
           \<and> length (sleeps w') = length (sleeps w) + 1"
  using assms
  by (auto simp: attempt_pass_def try_attempt_def on_429_def Let_def split: option.splits)

lemma pass_5xx:
  assumes "net w (calls w) = Responds r" and "status r \<ge> 500" and "hostname H url = Inr hn"
  shows "\<exists>w'. attempt_pass H url key ttl retries rtype attempt w = (Next (ServerError hn (status r)), w')
           \<and> net w' = net w \<and> calls w' = calls w + 1
           \<and> length (sleeps w') = length (sleeps w) + 1"
  using assms
  by (simp add: attempt_pass_def try_attempt_def on_5xx_def Let_def)

lemma pass_ok:
  assumes "net w (calls w) = Responds r" and "200 \<le> status r" and "status r \<le> 299"
    and "\<not> too_large r" and "body r rtype = Inr payload"
  shows "\<exists>w'. attempt_pass H url key ttl retries rtype attempt w = (Returned payload, w')
           \<and> net w' = net w \<and> calls w' = calls w + 1 \<and> sleeps w' = sleeps w
           \<and> err_log w' = err_log w \<and> clock w' = clock w + elapsed r
           \<and> mem w' key = Some \<lparr>cached_value = payload, expires = clock w + elapsed r + ttl\<rparr>"
  using assms
  by (simp add: attempt_pass_def try_attempt_def on_ok_def Let_def)

lemma NetworkError_fields:
  "cls (NetworkError m opts) = NetworkErrorC"
  "name (NetworkError m opts) = ''NetworkError''"
  "message (NetworkError m opts) = m"
  "code (NetworkError m (no_opts\<lparr>o_source := Some hn, o_retryable := Some False\<rparr>)) = Some ''NETWORK''"
  "source (NetworkError m (no_opts\<lparr>o_source := Some hn, o_retryable := Some False\<rparr>)) = Some hn"
  "recoverable (NetworkError m (no_opts\<lparr>o_source := Some hn, o_retryable := Some False\<rparr>)) = True"
  "retryable (NetworkError m (no_opts\<lparr>o_source := Some hn, o_retryable := Some False\<rparr>)) = False"
  by (simp_all add: NetworkError_def AppError_def spread_opts_def no_opts_def)

lemma pass_client_error:
  assumes "net w (calls w) = Responds r" and "status r \<noteq> 429" and "status r < 500"
    and "\<not> (200 \<le> status r \<and> status r \<le> 299)" and "hostname H url = Inr hn"
  shows "\<exists>w'. attempt_pass H url key ttl retries rtype attempt w =
             (Threw (ThrownApp (NetworkError (''HTTP '' @ String_int (status r) @ '' from '' @ url)
                                   (no_opts\<lparr>o_source := Some hn, o_retryable := Some False\<rparr>))), w')
           \<and> net w' = net w \<and> calls w' = calls w + 1 \<and> sleeps w' = sleeps w
           \<and> err_log w' = err_log w"
  using assms
  by (simp add: attempt_pass_def try_attempt_def on_not_ok_def catch_attempt_def Let_def
      NetworkError_fields)

text \<open>Unfolding the loop by one pass.\<close>

lemma fetch_loop_next:
  assumes "int attempt \<le> retries"
    and "attempt_pass H url key ttl retries rtype attempt w = (Next e, w')"
  shows "fetch_loop H url key ttl retries rtype attempt lastErr w =
           fetch_loop H url key ttl retries rtype (attempt + 1) (Some e) w'"
  using assms by (subst fetch_loop.simps) simp

lemma fetch_loop_returned:
  assumes "int attempt \<le> retries"
    and "attempt_pass H url key ttl retries rtype attempt w = (Returned payload, w')"
  shows "fetch_loop H url key ttl retries rtype attempt lastErr w = (Inr payload, w')"
  using assms by (subst fetch_loop.simps) simp

lemma fetch_loop_threw:
  assumes "int attempt \<le> retries"
    and "attempt_pass H url key ttl retries rtype attempt w = (Threw t, w')"
  shows "fetch_loop H url key ttl retries rtype attempt lastErr w = (Inl t, w')"
  using assms by (subst fetch_loop.simps) simp

lemma fetch_loop_exhausted:
  assumes "retries < int attempt"
  shows "fetch_loop H url key ttl retries rtype attempt (Some e) w = (Inl (ThrownApp e), w)"
  using assms by (subst fetch_loop.simps) simp

lemma robustFetch_miss:
  assumes "fst (cache_get (cache_key url opts) w) = None"
  shows "robustFetch H url opts w =
           fetch_loop H url (cache_key url opts) (ttl_of opts) (retries_of opts w) (rtype_of opts) 0 None
             (snd (cache_get (cache_key url opts) w))"
  using assms by (cases "cache_get (cache_key url opts) w") (simp add: robustFetch_def Let_def)

lemma next_statuses_Cons:
  "next_statuses w (st # sts) \<longleftrightarrow>
     (\<exists>r. net w (calls w) = Responds r \<and> status r = st)
     \<and> statuses_from (net w) (calls w + 1) sts"
  by (auto simp: next_statuses_def split: outcome.splits)

lemma next_statuses_shift:
  assumes "statuses_from (net w) (calls w + 1) sts"
    and "net w' = net w" and "calls w' = calls w + 1"
  shows "next_statuses w' sts"
  using assms by (simp add: next_statuses_def)

text \<open>
  The loop on a run of retryable statuses (429 or from 500 on): each one costs a call and a
  sleep, and the loop goes on with the rest.
\<close>

lemma fetch_loop_429:
  assumes "next_statuses w (429 # sts)" and "hostname H url = Inr hn" and "int attempt \<le> retries"
  shows "\<exists>e w'. fetch_loop H url key ttl retries rtype attempt lastErr w =
                   fetch_loop H url key ttl retries rtype (attempt + 1) (Some e) w'
           \<and> next_statuses w' sts \<and> net w' = net w \<and> calls w' = calls w + 1
           \<and> length (sleeps w') = length (sleeps w) + 1"
proof -
  from assms(1) obtain r where r: "net w (calls w) = Responds r" "status r = 429"
    and rest: "statuses_from (net w) (calls w + 1) sts"
    by (auto simp: next_statuses_Cons)
  from pass_429 [OF r assms(2), of key ttl retries rtype attempt] obtain ra w' where
    p: "attempt_pass H url key ttl retries rtype attempt w = (Next (RateLimitError hn ra), w')"
    and f: "net w' = net w" "calls w' = calls w + 1" "length (sleeps w') = length (sleeps w) + 1"
    by blast
  from fetch_loop_next [OF assms(3) p] next_statuses_shift [OF rest f(1,2)] f show ?thesis
    by blast
qed

lemma fetch_loop_500:
  assumes "next_statuses w (500 # sts)" and "hostname H url = Inr hn" and "int attempt \<le> retries"
  shows "\<exists>w'. fetch_loop H url key ttl retries rtype attempt lastErr w =
                   fetch_loop H url key ttl retries rtype (attempt + 1) (Some (ServerError hn 500)) w'
           \<and> next_statuses w' sts \<and> net w' = net w \<and> calls w' = calls w + 1
           \<and> length (sleeps w') = length (sleeps w) + 1"
proof -
  from assms(1) obtain r where r: "net w (calls w) = Responds r" and s: "status r = 500"
    and rest: "statuses_from (net w) (calls w + 1) sts"
    by (auto simp: next_statuses_Cons)
  from s have "status r \<ge> 500"
    by simp
  from pass_5xx [OF r this assms(2), of key ttl retries rtype attempt] s obtain w' where
    p: "attempt_pass H url key ttl retries rtype attempt w = (Next (ServerError hn 500), w')"
    and f: "net w' = net w" "calls w' = calls w + 1" "length (sleeps w') = length (sleeps w) + 1"
    by auto
  from fetch_loop_next [OF assms(3) p] next_statuses_shift [OF rest f(1,2)] f show ?thesis
    by blast
qed

lemma fetch_loop_ok:
  assumes "net w (calls w) = Responds r" and "200 \<le> status r" and "status r \<le> 299"
    and "\<not> too_large r" and "body r rtype = Inr payload" and "int attempt \<le> retries"
  shows "\<exists>w'. fetch_loop H url key ttl retries rtype attempt lastErr w = (Inr payload, w')
           \<and> calls w' = calls w + 1 \<and> sleeps w' = sleeps w \<and> clock w' = clock w + elapsed r
           \<and> mem w' key = Some \<lparr>cached_value = payload, expires = clock w + elapsed r + ttl\<rparr>"
proof -
  from pass_ok [OF assms(1-5), of H url key ttl retries attempt] obtain w' where
    p: "attempt_pass H url key ttl retries rtype attempt w = (Returned payload, w')"
    and f: "calls w' = calls w + 1" "sleeps w' = sleeps w" "clock w' = clock w + elapsed r"
      "mem w' key = Some \<lparr>cached_value = payload, expires = clock w + elapsed r + ttl\<rparr>"
    by blast
  from fetch_loop_returned [OF assms(6) p] f show ?thesis
    by blast
qed

lemma fetch_loop_client_error:
  assumes "net w (calls w) = Responds r" and "status r \<noteq> 429" and "status r < 500"
    and "\<not> (200 \<le> status r \<and> status r \<le> 299)" and "hostname H url = Inr hn"
    and "int attempt \<le> retries"
  shows "\<exists>w'. fetch_loop H url key ttl retries rtype attempt lastErr w =
             (Inl (ThrownApp (NetworkError (''HTTP '' @ String_int (status r) @ '' from '' @ url)
                                (no_opts\<lparr>o_source := Some hn, o_retryable := Some False\<rparr>))), w')
           \<and> calls w' = calls w + 1 \<and> sleeps w' = sleeps w \<and> err_log w' = err_log w"
proof -
  from pass_client_error [OF assms(1-5), of key ttl retries rtype attempt] obtain w' where
    p: "attempt_pass H url key ttl retries rtype attempt w =
             (Threw (ThrownApp (NetworkError (''HTTP '' @ String_int (status r) @ '' from '' @ url)
                                   (no_opts\<lparr>o_source := Some hn, o_retryable := Some False\<rparr>))), w')"
    and f: "calls w' = calls w + 1" "sleeps w' = sleeps w" "err_log w' = err_log w"
    by blast
  from fetch_loop_threw [OF assms(6) p] f show ?thesis
    by blast
qed

text \<open>The two runs of the claim, from any world in which the loop starts.\<close>

lemma fetch_loop_429_429_200:
  assumes "next_statuses w [429, 429, 200]" and "next_response w 2 = Some r"
    and "\<not> too_large r" and "body r rtype = Inr payload" and "hostname H url = Inr hn"
  shows "\<exists>w'. fetch_loop H url key ttl 3 rtype 0 None w = (Inr payload, w')
           \<and> calls w' = calls w + 3 \<and> length (sleeps w') = length (sleeps w) + 2"
proof -
  from fetch_loop_429 [OF assms(1) assms(5), where attempt = 0 and retries = 3 and key = key
      and ttl = ttl and rtype = rtype and lastErr = None]
  obtain e1 w1 where
    l1: "fetch_loop H url key ttl 3 rtype 0 None w
           = fetch_loop H url key ttl 3 rtype (Suc 0) (Some e1) w1"
    and s1: "next_statuses w1 [429, 200]" and f1: "net w1 = net w" "calls w1 = calls w + 1"
      "length (sleeps w1) = length (sleeps w) + 1"
    by auto
  from fetch_loop_429 [OF s1 assms(5), where attempt = "Suc 0" and retries = 3 and key = key
      and ttl = ttl and rtype = rtype and lastErr = "Some e1"]
  obtain e2 w2 where
    l2: "fetch_loop H url key ttl 3 rtype (Suc 0) (Some e1) w1
           = fetch_loop H url key ttl 3 rtype (Suc (Suc 0)) (Some e2) w2"
    and s2: "next_statuses w2 [200]" and f2: "net w2 = net w1" "calls w2 = calls w1 + 1"
      "length (sleeps w2) = length (sleeps w1) + 1"
    by auto
  from assms(2) have "net w (calls w + 2) = Responds r"
    by (simp add: next_response_def split: outcome.splits)
  with f1 f2 have r: "net w2 (calls w2) = Responds r"
    by simp
  with s2 have st: "status r = 200"
    by (simp add: next_statuses_def)
  from fetch_loop_ok [OF r _ _ assms(3,4), where attempt = "Suc (Suc 0)" and retries = 3 and H = H
      and url = url and key = key and ttl = ttl and lastErr = "Some e2"] st
  obtain w3 where
    l3: "fetch_loop H url key ttl 3 rtype (Suc (Suc 0)) (Some e2) w2 = (Inr payload, w3)"
    and f3: "calls w3 = calls w2 + 1" "sleeps w3 = sleeps w2"
    by auto
  from l1 l2 l3 f1 f2 f3 show ?thesis
    by simp
qed

lemma fetch_loop_500_x4:
  assumes "next_statuses w [500, 500, 500, 500]" and "hostname H url = Inr hn"
  shows "\<exists>w'. fetch_loop H url key ttl 3 rtype 0 None w = (Inl (ThrownApp (ServerError hn 500)), w')
           \<and> calls w' = calls w + 4 \<and> length (sleeps w') = length (sleeps w) + 4"
proof -
  let ?e = "Some (ServerError hn 500)"
  from fetch_loop_500 [OF assms(1) assms(2), where attempt = 0 and retries = 3 and key = key
      and ttl = ttl and rtype = rtype and lastErr = None]
  obtain w1 where
    l1: "fetch_loop H url key ttl 3 rtype 0 None w = fetch_loop H url key ttl 3 rtype (Suc 0) ?e w1"
    and s1: "next_statuses w1 [500, 500, 500]" and f1: "calls w1 = calls w + 1"
      "length (sleeps w1) = length (sleeps w) + 1"
    by auto
  from fetch_loop_500 [OF s1 assms(2), where attempt = "Suc 0" and retries = 3 and key = key
      and ttl = ttl and rtype = rtype and lastErr = ?e]
  obtain w2 where
    l2: "fetch_loop H url key ttl 3 rtype (Suc 0) ?e w1
           = fetch_loop H url key ttl 3 rtype (Suc (Suc 0)) ?e w2"
    and s2: "next_statuses w2 [500, 500]" and f2: "calls w2 = calls w1 + 1"
      "length (sleeps w2) = length (sleeps w1) + 1"
    by auto
  from fetch_loop_500 [OF s2 assms(2), where attempt = "Suc (Suc 0)" and retries = 3 and key = key
      and ttl = ttl and rtype = rtype and lastErr = ?e]
  obtain w3 where
    l3: "fetch_loop H url key ttl 3 rtype (Suc (Suc 0)) ?e w2
           = fetch_loop H url key ttl 3 rtype (Suc (Suc (Suc 0))) ?e w3"
    and s3: "next_statuses w3 [500]" and f3: "calls w3 = calls w2 + 1"
      "length (sleeps w3) = length (sleeps w2) + 1"
    by auto
  from fetch_loop_500 [OF s3 assms(2), where attempt = "Suc (Suc (Suc 0))" and retries = 3
      and key = key and ttl = ttl and rtype = rtype and lastErr = ?e]
  obtain w4 where
    l4: "fetch_loop H url key ttl 3 rtype (Suc (Suc (Suc 0))) ?e w3
           = fetch_loop H url key ttl 3 rtype (Suc (Suc (Suc (Suc 0)))) ?e w4"
    and f4: "calls w4 = calls w3 + 1" "length (sleeps w4) = length (sleeps w3) + 1"
    by auto
  have l5: "fetch_loop H url key ttl 3 rtype (Suc (Suc (Suc (Suc 0)))) ?e w4
              = (Inl (ThrownApp (ServerError hn 500)), w4)"
    by (rule fetch_loop_exhausted) simp
  from l1 l2 l3 l4 l5 f1 f2 f3 f4 show ?thesis
    by simp
qed

lemma sleep_frame_rand [simp]:
  "rand (sleep ms w) = rand w" "draws (sleep ms w) = draws w"
  by (simp_all add: sleep_def)

lemma backoff_frame_rand [simp]:
  "rand (snd (backoff k w)) = rand w" "draws (snd (backoff k w)) = draws w + 1"
  by (simp_all add: backoff_def Let_def)

lemma cache_get_frame_rand [simp]:
  "rand (snd (cache_get key w)) = rand w" "draws (snd (cache_get key w)) = draws w"
  by (simp_all add: cache_get_def split: option.splits)

lemma parseInt10_zero: "parseInt10 ''0'' = Some 0"
  by (simp add: parseInt10_def is_space_def is_digit_def digits_value_def)

text \<open>
  A 429 without a \<open>Retry-After\<close> header: the sleep is the backoff delay of the attempt, the
  base times two to the attempt plus the jitter drawn.
\<close>

lemma pass_429_backoff:
  assumes "net w (calls w) = Responds r" and "status r = 429" and "retry_after r = None"
    and "hostname H url = Inr hn"
  shows "\<exists>w'. attempt_pass H url key ttl retries rtype attempt w = (Next (RateLimitError hn (Some 0)), w')
           \<and> net w' = net w \<and> calls w' = calls w + 1
           \<and> sleeps w' = sleeps w @ [flag_retryBaseMs (overrides w) * 2 ^ attempt
                                       + rand w (draws w) * 500]
           \<and> rand w' = rand w \<and> draws w' = draws w + 1 \<and> overrides w' = overrides w"
  using assms
  by (simp add: attempt_pass_def try_attempt_def on_429_def Let_def parseInt10_zero)

lemma fetch_loop_429_429_200_backoff:
  assumes "next_statuses w [429, 429, 200]" and "next_response w 0 = Some r0"
    and "next_response w 1 = Some r1" and "next_response w 2 = Some r"
    and "retry_after r0 = None" and "retry_after r1 = None"
    and "\<not> too_large r" and "body r rtype = Inr payload" and "hostname H url = Inr hn"
  shows "\<exists>w'. fetch_loop H url key ttl 3 rtype 0 None w = (Inr payload, w')
           \<and> sleeps w' = sleeps w @ [flag_retryBaseMs (overrides w) * 2 ^ 0 + rand w (draws w) * 500,
                                      flag_retryBaseMs (overrides w) * 2 ^ 1 + rand w (draws w + 1) * 500]"
proof -
  from assms(1) have st: "statuses_from (net w) (calls w) [429, 429, 200]"
    by (simp add: next_statuses_def)
  from assms(2) have r0: "net w (calls w) = Responds r0"
    by (simp add: next_response_def split: outcome.splits)
  with st have s0: "status r0 = 429"
    by simp
  from assms(3) have r1: "net w (calls w + 1) = Responds r1"
    by (simp add: next_response_def split: outcome.splits)
  with st have s1: "status r1 = 429"
    by simp
  from assms(4) have r2: "net w (calls w + 2) = Responds r"
    by (simp add: next_response_def split: outcome.splits)
  with st have s2: "status r = 200"
    by (simp add: numeral_2_eq_2)
  from pass_429_backoff [OF r0 s0 assms(5) assms(9), of key ttl 3 rtype 0] obtain w1 where
    p1: "attempt_pass H url key ttl 3 rtype 0 w = (Next (RateLimitError hn (Some 0)), w1)"
    and f1: "net w1 = net w" "calls w1 = calls w + 1"
      "sleeps w1 = sleeps w @ [flag_retryBaseMs (overrides w) * 2 ^ 0 + rand w (draws w) * 500]"
      "rand w1 = rand w" "draws w1 = draws w + 1" "overrides w1 = overrides w"
    by auto
  from r1 f1 have r1': "net w1 (calls w1) = Responds r1"
    by simp
  from pass_429_backoff [OF r1' s1 assms(6) assms(9), of key ttl 3 rtype "Suc 0"] obtain w2 where
    p2: "attempt_pass H url key ttl 3 rtype (Suc 0) w1 = (Next (RateLimitError hn (Some 0)), w2)"
    and f2: "net w2 = net w1" "calls w2 = calls w1 + 1"
      "sleeps w2 = sleeps w1 @ [flag_retryBaseMs (overrides w1) * 2 ^ Suc 0 + rand w1 (draws w1) * 500]"
    by auto
  from r2 f1 f2 have r2': "net w2 (calls w2) = Responds r"
    by simp
  from fetch_loop_ok [OF r2' _ _ assms(7,8), where attempt = "Suc (Suc 0)" and retries = 3
      and H = H and url = url and key = key and ttl = ttl
      and lastErr = "Some (RateLimitError hn (Some 0))"] s2
  obtain w3 where
    l3: "fetch_loop H url key ttl 3 rtype (Suc (Suc 0)) (Some (RateLimitError hn (Some 0))) w2
           = (Inr payload, w3)"
    and f3: "sleeps w3 = sleeps w2"
    by auto
  have "fetch_loop H url key ttl 3 rtype 0 None w
      = fetch_loop H url key ttl 3 rtype (Suc 0) (Some (RateLimitError hn (Some 0))) w1"
    using fetch_loop_next [OF _ p1, of None] by simp
  also have "\<dots> = fetch_loop H url key ttl 3 rtype (Suc (Suc 0)) (Some (RateLimitError hn (Some 0))) w2"
    using fetch_loop_next [OF _ p2, of "Some (RateLimitError hn (Some 0))"] by simp
  finally have "fetch_loop H url key ttl 3 rtype 0 None w = (Inr payload, w3)"
    using l3 by simp
  with f1 f2 f3 show ?thesis
    by simp
qed

lemma next_after_miss:
  "next_statuses (snd (cache_get key w)) sts = next_statuses w sts"
  "next_response (snd (cache_get key w)) k = next_response w k"
  by (simp_all add: next_statuses_def next_response_def)

text \<open>
  C2. With three retries and nothing cached: when the next three responses have the statuses
  429, 429 and 200 and the third can be read, \<open>robustFetch\<close> returns its payload after three
  calls of \<open>fetch\<close> and exactly two sleeps, which without \<open>Retry-After\<close> headers are the
  backoff delays of attempts 0 and 1; when the next four responses all have status 500, the
  loop runs out after four calls and the \<open>ServerError\<close> of the last one is thrown.
\<close>

theorem robustFetch_retry_sequences:
  assumes "retries_of opts w = 3"
    and "fst (cache_get (cache_key url opts) w) = None"
    and "hostname H url = Inr hn"
  shows "(next_statuses w [429, 429, 200] \<and> next_response w 2 = Some r \<and> \<not> too_large r
            \<and> body r (rtype_of opts) = Inr payload
          \<longrightarrow> fst (robustFetch H url opts w) = Inr payload
              \<and> calls (snd (robustFetch H url opts w)) = calls w + 3
              \<and> length (sleeps (snd (robustFetch H url opts w))) = length (sleeps w) + 2
              \<and> (next_response w 0 = Some r0 \<and> next_response w 1 = Some r1
                    \<and> retry_after r0 = None \<and> retry_after r1 = None
                  \<longrightarrow> sleeps (snd (robustFetch H url opts w)) =
                        sleeps w @ [flag_retryBaseMs (overrides w) * 2 ^ 0 + rand w (draws w) * 500,
                                    flag_retryBaseMs (overrides w) * 2 ^ 1 + rand w (draws w + 1) * 500]))
       \<and> (next_statuses w [500, 500, 500, 500]
          \<longrightarrow> fst (robustFetch H url opts w) = Inl (ThrownApp (ServerError hn 500))
              \<and> name (ServerError hn 500) = ''ServerError''
              \<and> calls (snd (robustFetch H url opts w)) = calls w + 4)"
proof (intro conjI impI)
  let ?w = "snd (cache_get (cache_key url opts) w)"
  have rf: "robustFetch H url opts w =
      fetch_loop H url (cache_key url opts) (ttl_of opts) 3 (rtype_of opts) 0 None ?w"
    using assms(1,2) by (simp add: robustFetch_miss)
  {
    assume a: "next_statuses w [429, 429, 200] \<and> next_response w 2 = Some r \<and> \<not> too_large r
            \<and> body r (rtype_of opts) = Inr payload"
    then have n: "next_statuses ?w [429, 429, 200]" "next_response ?w 2 = Some r"
      by (simp_all add: next_after_miss)
    from fetch_loop_429_429_200 [OF n _ _ assms(3), where payload = payload
        and rtype = "rtype_of opts" and key = "cache_key url opts" and ttl = "ttl_of opts"] a
    obtain w' where "fetch_loop H url (cache_key url opts) (ttl_of opts) 3 (rtype_of opts) 0 None ?w
          = (Inr payload, w')"
      and "calls w' = calls ?w + 3" and "length (sleeps w') = length (sleeps ?w) + 2"
      by blast
    with rf show "fst (robustFetch H url opts w) = Inr payload"
      and "calls (snd (robustFetch H url opts w)) = calls w + 3"
      and "length (sleeps (snd (robustFetch H url opts w))) = length (sleeps w) + 2"
      by simp_all
    assume b: "next_response w 0 = Some r0 \<and> next_response w 1 = Some r1
                    \<and> retry_after r0 = None \<and> retry_after r1 = None"
    then have m: "next_response ?w 0 = Some r0" "next_response ?w 1 = Some r1"
      by (simp_all add: next_after_miss)
    from a have a3: "\<not> too_large r" and a4: "body r (rtype_of opts) = Inr payload"
      by simp_all
    from b have b1: "retry_after r0 = None" and b2: "retry_after r1 = None"
      by simp_all
    from fetch_loop_429_429_200_backoff [OF n(1) m n(2) b1 b2 a3 a4 assms(3),
        where key = "cache_key url opts" and ttl = "ttl_of opts"]
    obtain w'' where "fetch_loop H url (cache_key url opts) (ttl_of opts) 3 (rtype_of opts) 0 None ?w
          = (Inr payload, w'')"
      and "sleeps w'' = sleeps ?w @ [flag_retryBaseMs (overrides ?w) * 2 ^ 0 + rand ?w (draws ?w) * 500,
                                      flag_retryBaseMs (overrides ?w) * 2 ^ 1 + rand ?w (draws ?w + 1) * 500]"
      by (elim exE conjE) (rule that)
    with rf show "sleeps (snd (robustFetch H url opts w)) =
                        sleeps w @ [flag_retryBaseMs (overrides w) * 2 ^ 0 + rand w (draws w) * 500,
                                    flag_retryBaseMs (overrides w) * 2 ^ 1 + rand w (draws w + 1) * 500]"
      by simp
  }
  {
    assume "next_statuses w [500, 500, 500, 500]"
    then have "next_statuses ?w [500, 500, 500, 500]"
      by (simp add: next_after_miss)
    from fetch_loop_500_x4 [OF this assms(3), where key = "cache_key url opts"
        and ttl = "ttl_of opts" and rtype = "rtype_of opts"]
    obtain w' where "fetch_loop H url (cache_key url opts) (ttl_of opts) 3 (rtype_of opts) 0 None ?w
          = (Inl (ThrownApp (ServerError hn 500)), w')"
      and "calls w' = calls ?w + 4"
      by blast
    with rf show "fst (robustFetch H url opts w) = Inl (ThrownApp (ServerError hn 500))"
      and "calls (snd (robustFetch H url opts w)) = calls w + 4"
      by simp_all
  }
  show "name (ServerError hn 500) = ''ServerError''"
    by (simp add: ServerError_def)
qed

lemmas example_world_eval =
  cold_world_def plain_response_def default_opts_def example_host_def retries_of_def
  flag_maxRetries_def rtype_of_def ttl_of_def next_statuses_def next_response_def too_large_def

lemma cold_world_miss: "fst (cache_get key (cold_world sts)) = None"
  by (simp add: cache_get_def cold_world_def)

theorem robustFetch_retry_sequences_witness:
  "fst (robustFetch example_host wits_url default_opts (cold_world [429, 429, 200]))
     = Inr (JObj [(''status'', JNum 200)])
   \<and> calls (snd (robustFetch example_host wits_url default_opts (cold_world [429, 429, 200]))) = 3
   \<and> sleeps (snd (robustFetch example_host wits_url default_opts (cold_world [429, 429, 200])))
     = [1250, 2250]
   \<and> fst (robustFetch example_host wits_url default_opts (cold_world [500, 500, 500, 500]))
     = Inl (ThrownApp (ServerError ''wits.worldbank.org'' 500))
   \<and> calls (snd (robustFetch example_host wits_url default_opts (cold_world [500, 500, 500, 500]))) = 4"
proof -
  have h: "hostname example_host wits_url = Inr ''wits.worldbank.org''"
    by (simp add: example_host_def)
  have a: "retries_of default_opts (cold_world [429, 429, 200]) = 3"
    and b: "next_statuses (cold_world [429, 429, 200]) [429, 429, 200]
      \<and> next_response (cold_world [429, 429, 200]) 2 = Some (plain_response 200)
      \<and> \<not> too_large (plain_response 200)
      \<and> body (plain_response 200) (rtype_of default_opts) = Inr (JObj [(''status'', JNum 200)])"
    and b': "next_response (cold_world [429, 429, 200]) 0 = Some (plain_response 429)
      \<and> next_response (cold_world [429, 429, 200]) 1 = Some (plain_response 429)
      \<and> retry_after (plain_response 429) = None \<and> retry_after (plain_response 429) = None"
    by (simp_all add: example_world_eval)
  have c: "retries_of default_opts (cold_world [500, 500, 500, 500]) = 3"
    and d: "next_statuses (cold_world [500, 500, 500, 500]) [500, 500, 500, 500]"
    by (simp_all add: example_world_eval)
  from robustFetch_retry_sequences [OF a cold_world_miss h, where r = "plain_response 200"
      and payload = "JObj [(''status'', JNum 200)]" and ?r0.0 = "plain_response 429"
      and ?r1.0 = "plain_response 429"] b b'
  have one: "fst (robustFetch example_host wits_url default_opts (cold_world [429, 429, 200]))
     = Inr (JObj [(''status'', JNum 200)])
   \<and> calls (snd (robustFetch example_host wits_url default_opts (cold_world [429, 429, 200]))) = 3
   \<and> sleeps (snd (robustFetch example_host wits_url default_opts (cold_world [429, 429, 200])))
     = [1250, 2250]"
    by (simp add: cold_world_def flag_retryBaseMs_def)
  from robustFetch_retry_sequences [OF c cold_world_miss h, where r = "plain_response 200"
      and payload = "JObj [(''status'', JNum 200)]"] d
  have two: "fst (robustFetch example_host wits_url default_opts (cold_world [500, 500, 500, 500]))
     = Inl (ThrownApp (ServerError ''wits.worldbank.org'' 500))
   \<and> calls (snd (robustFetch example_host wits_url default_opts (cold_world [500, 500, 500, 500]))) = 4"
    by (simp add: cold_world_def)
  from one two show ?thesis
    by blast
qed

text \<open>
  A status outside 200 to 299 that is below 500 and not 429: the error is built by
  \<open>NetworkError\<close> with \<open>retryable: false\<close>, and the \<open>catch\<close> block throws it on at once.
\<close>

lemma robustFetch_not_ok:
  assumes "fst (cache_get (cache_key url opts) w) = None" and "0 \<le> retries_of opts w"
    and "hostname H url = Inr hn" and "net w (calls w) = Responds r"
    and "status r \<noteq> 429" and "status r < 500" and "\<not> (200 \<le> status r \<and> status r \<le> 299)"
  shows "fst (robustFetch H url opts w) =
           Inl (ThrownApp (NetworkError (''HTTP '' @ String_int (status r) @ '' from '' @ url)
                             (no_opts\<lparr>o_source := Some hn, o_retryable := Some False\<rparr>)))
         \<and> calls (snd (robustFetch H url opts w)) = calls w + 1
         \<and> sleeps (snd (robustFetch H url opts w)) = sleeps w
         \<and> err_log (snd (robustFetch H url opts w)) = err_log w"
proof -
  let ?w = "snd (cache_get (cache_key url opts) w)"
  have r: "net ?w (calls ?w) = Responds r"
    using assms(4) by simp
  from assms(2) have le: "int 0 \<le> retries_of opts w"
    by simp
  from fetch_loop_client_error [OF r assms(5,6,7,3) le, where key = "cache_key url opts"
      and ttl = "ttl_of opts" and rtype = "rtype_of opts" and lastErr = None]
  show ?thesis
    using assms(1) by (auto simp: robustFetch_miss)
qed

text \<open>
  C5, as the code has it. Nothing cached, at least one attempt allowed, an absolute URL and a
  4xx response other than 429: \<open>robustFetch\<close> makes that one call, does not sleep, and throws
  an error of class \<open>NetworkError\<close> with code \<open>NETWORK\<close>, recoverable and not retryable.
\<close>

theorem robustFetch_client_error:
  assumes "fst (cache_get (cache_key url opts) w) = None" and "0 \<le> retries_of opts w"
    and "hostname H url = Inr hn" and "net w (calls w) = Responds r"
    and "400 \<le> status r" and "status r < 500" and "status r \<noteq> 429"
  shows "\<exists>e. fst (robustFetch H url opts w) = Inl (ThrownApp e)
           \<and> cls e = NetworkErrorC \<and> name e = ''NetworkError'' \<and> code e = Some ''NETWORK''
           \<and> message e = ''HTTP '' @ String_int (status r) @ '' from '' @ url
           \<and> recoverable e \<and> \<not> retryable e
           \<and> calls (snd (robustFetch H url opts w)) = calls w + 1
           \<and> sleeps (snd (robustFetch H url opts w)) = sleeps w"
proof -
  from assms(5) have "\<not> (200 \<le> status r \<and> status r \<le> 299)"
    by simp
  from robustFetch_not_ok [OF assms(1,2,3,4) assms(7) assms(6) this] show ?thesis
    by (simp add: NetworkError_fields)
qed

theorem robustFetch_client_error_witness:
  "\<exists>e. fst (robustFetch example_host wits_url default_opts (cold_world [403])) = Inl (ThrownApp e)
      \<and> name e = ''NetworkError'' \<and> recoverable e \<and> \<not> retryable e
      \<and> calls (snd (robustFetch example_host wits_url default_opts (cold_world [403]))) = 1
      \<and> sleeps (snd (robustFetch example_host wits_url default_opts (cold_world [403]))) = []"
proof -
  have h: "hostname example_host wits_url = Inr ''wits.worldbank.org''"
    by (simp add: example_host_def)
  have a: "0 \<le> retries_of default_opts (cold_world [403])"
    and b: "net (cold_world [403]) (calls (cold_world [403])) = Responds (plain_response 403)"
    and c: "400 \<le> status (plain_response 403)" "status (plain_response 403) < 500"
      "status (plain_response 403) \<noteq> 429"
    by (simp_all add: example_world_eval)
  from robustFetch_client_error [OF cold_world_miss a h b c] show ?thesis
    by (auto simp: cold_world_def)
qed

text \<open>
  The claim as stated fails: on a 404 the error thrown is a \<open>NetworkError\<close>, not a
  \<open>ClientError\<close>, and it is marked recoverable.
\<close>

theorem robustFetch_404_counterexample:
  "fst (robustFetch example_host wits_url default_opts (cold_world [404])) =
     Inl (ThrownApp
       \<lparr>cls = NetworkErrorC, name = ''NetworkError'',
        message = ''HTTP 404 from '' @ wits_url,
        code = Some ''NETWORK'', source = Some ''wits.worldbank.org'', recoverable = True,
        uiMessage = ''HTTP 404 from '' @ wits_url, retryable = False\<rparr>)"
proof -
  have h: "hostname example_host wits_url = Inr ''wits.worldbank.org''"
    by (simp add: example_host_def)
  have a: "0 \<le> retries_of default_opts (cold_world [404])"
    and b: "net (cold_world [404]) (calls (cold_world [404])) = Responds (plain_response 404)"
    and c: "status (plain_response 404) \<noteq> 429" "status (plain_response 404) < 500"
      "\<not> (200 \<le> status (plain_response 404) \<and> status (plain_response 404) \<le> 299)"
    by (simp_all add: example_world_eval)
  have s: "String_int 404 = ''404''"
    by (simp add: String_int_def digits_of.simps digit_char_def char_of_def bit_0)
  from robustFetch_not_ok [OF cold_world_miss a h b c] show ?thesis
    by (simp add: plain_response_def s NetworkError_def AppError_def spread_opts_def no_opts_def)
qed


text \<open>A pass that returns has just stored what it returns, with the time to live ahead.\<close>

lemma on_ok_done:
  "on_ok H url key ttl rtype resp w = (Done d, w') \<Longrightarrow>
     mem w' key = Some \<lparr>cached_value = d, expires = clock w' + ttl\<rparr>"
  by (auto simp: on_ok_def split: if_splits sum.splits)

lemma on_429_not_done: "on_429 H url attempt resp w \<noteq> (Done d, w')"
  by (simp add: on_429_def Let_def split: sum.splits)

lemma on_5xx_not_done: "on_5xx H url attempt resp w \<noteq> (Done d, w')"
  by (simp add: on_5xx_def Let_def split: sum.splits)

lemma on_not_ok_not_done: "on_not_ok H url resp w \<noteq> (Done d, w')"
  by (simp add: on_not_ok_def split: sum.splits)

lemma try_attempt_done:
  assumes "try_attempt H url key ttl rtype attempt w = (Done d, w')"
  shows "mem w' key = Some \<lparr>cached_value = d, expires = clock w' + ttl\<rparr>"
proof (cases "net w (calls w)")
  case (Rejects e)
  with assms show ?thesis
    by (simp add: try_attempt_def Let_def)
next
  case (Responds resp)
  define w3 where "w3 = track ''fetch'' ''response''
               [(''url'', JStr url), (''status'', JNum (of_int (status resp))),
                (''ms'', JNum (of_int \<lfloor>elapsed resp + 1 / 2\<rfloor>))]
               ((track ''fetch'' ''attempt'' [(''url'', JStr url), (''attempt'', JNum (real attempt))] w)
                  \<lparr>calls := calls w + 1, clock := clock w + elapsed resp\<rparr>)"
  from Responds have "try_attempt H url key ttl rtype attempt w =
      (if status resp = 429 then on_429 H url attempt resp w3
       else if status resp \<ge> 500 then on_5xx H url attempt resp w3
       else if \<not> (200 \<le> status resp \<and> status resp \<le> 299) then on_not_ok H url resp w3
       else on_ok H url key ttl rtype resp w3)"
    by (simp add: try_attempt_def Let_def w3_def)
  with assms have "on_ok H url key ttl rtype resp w3 = (Done d, w')"
    by (simp add: on_429_not_done on_5xx_not_done on_not_ok_not_done split: if_splits)
  then show ?thesis
    by (rule on_ok_done)
qed

lemma catch_attempt_not_returned: "fst (catch_attempt H url retries attempt err w) \<noteq> Returned d"
  by (simp add: catch_attempt_def Let_def split: caught.splits sum.splits prod.splits)

lemma attempt_pass_returned:
  assumes "attempt_pass H url key ttl retries rtype attempt w = (Returned d, w')"
  shows "mem w' key = Some \<lparr>cached_value = d, expires = clock w' + ttl\<rparr>"
proof (cases "try_attempt H url key ttl rtype attempt w")
  case (Pair t w1)
  show ?thesis
  proof (cases t)
    case (Done d')
    with Pair assms have "d' = d" "w1 = w'"
      by (simp_all add: attempt_pass_def)
    with Pair Done show ?thesis
      by (simp add: try_attempt_done)
  next
    case (Continue e)
    with Pair assms show ?thesis
      by (simp add: attempt_pass_def)
  next
    case (Caught c)
    with Pair assms catch_attempt_not_returned [of H url retries attempt c w1 d] show ?thesis
      by (simp add: attempt_pass_def)
  qed
qed

lemma fetch_loop_returns_cached:
  "fetch_loop H url key ttl retries rtype attempt lastErr w = (Inr d, w') \<Longrightarrow>
     mem w' key = Some \<lparr>cached_value = d, expires = clock w' + ttl\<rparr>"
proof (induction H url key ttl retries rtype attempt lastErr w rule: fetch_loop.induct)
  case (1 H url key ttl retries rtype attempt lastErr w)
  show ?case
  proof (cases "int attempt \<le> retries")
    case False
    with "1.prems" show ?thesis
      by (simp add: fetch_loop.simps [of H url key ttl retries rtype attempt])
  next
    case True
    obtain p w1 where p: "attempt_pass H url key ttl retries rtype attempt w = (p, w1)"
      by (cases "attempt_pass H url key ttl retries rtype attempt w")
    show ?thesis
    proof (cases p)
      case (Returned d')
      with True p "1.prems" have "d' = d" "w1 = w'"
        by (simp_all add: fetch_loop.simps [of H url key ttl retries rtype attempt])
      with p Returned show ?thesis
        by (simp add: attempt_pass_returned)
    next
      case (Threw t)
      with True p "1.prems" show ?thesis
        by (simp add: fetch_loop.simps [of H url key ttl retries rtype attempt])
    next
      case (Next e)
      with True p "1.prems" have
        "fetch_loop H url key ttl retries rtype (attempt + 1) (Some e) w1 = (Inr d, w')"
        by (simp add: fetch_loop.simps [of H url key ttl retries rtype attempt])
      from "1.IH" [OF True p [symmetric] Next this] show ?thesis .
    qed
  qed
qed

lemma robustFetch_success_cached:
  assumes "robustFetch H url opts w = (Inr d, w')"
  shows "\<exists>e. mem w' (cache_key url opts) = Some e \<and> cached_value e = d"
proof (cases "fst (cache_get (cache_key url opts) w)")
  case None
  with assms have "fetch_loop H url (cache_key url opts) (ttl_of opts) (retries_of opts w)
      (rtype_of opts) 0 None (snd (cache_get (cache_key url opts) w)) = (Inr d, w')"
    by (simp add: robustFetch_miss)
  from fetch_loop_returns_cached [OF this] show ?thesis
    by simp
next
  case (Some c)
  with assms have "cache_get (cache_key url opts) w = (Some d, w')"
    by (cases "cache_get (cache_key url opts) w") (simp add: robustFetch_def Let_def)
  then show ?thesis
    by (auto simp: cache_get_def split: option.splits if_splits)
qed

text \<open>A call that finds a live entry in memory: the entry is returned, one event is tracked.\<close>

lemma robustFetch_hit:
  assumes "mem w (cache_key url opts) = Some e" and "clock w < expires e"
  shows "robustFetch H url opts w =
           (Inr (cached_value e),
            track ''cache'' ''cache_hit''
              [(''store'', JStr ''memory''), (''key'', JStr (cache_key url opts))] w)"
  using assms by (simp add: robustFetch_def cache_get_def Let_def)

lemma robustFetch_first_try:
  assumes "fst (cache_get (cache_key url opts) w) = None" and "0 \<le> retries_of opts w"
    and "net w (calls w) = Responds r" and "200 \<le> status r" and "status r \<le> 299"
    and "\<not> too_large r" and "body r (rtype_of opts) = Inr d"
  shows "fst (robustFetch H url opts w) = Inr d
         \<and> calls (snd (robustFetch H url opts w)) = calls w + 1
         \<and> sleeps (snd (robustFetch H url opts w)) = sleeps w"
proof -
  let ?w = "snd (cache_get (cache_key url opts) w)"
  have r: "net ?w (calls ?w) = Responds r"
    using assms(3) by simp
  from assms(2) have le: "int 0 \<le> retries_of opts w"
    by simp
  from fetch_loop_ok [OF r assms(4,5,6,7) le, where H = H and url = url
      and key = "cache_key url opts" and ttl = "ttl_of opts" and lastErr = None]
  show ?thesis
    using assms(1) by (auto simp: robustFetch_miss)
qed

lemma robustFetch_429_then_ok:
  assumes "fst (cache_get (cache_key url opts) w) = None" and "1 \<le> retries_of opts w"
    and "hostname H url = Inr hn" and "next_statuses w [429, 200]"
    and "next_response w 1 = Some r" and "\<not> too_large r" and "body r (rtype_of opts) = Inr d"
  shows "fst (robustFetch H url opts w) = Inr d
         \<and> calls (snd (robustFetch H url opts w)) = calls w + 2"
proof -
  let ?w = "snd (cache_get (cache_key url opts) w)"
  let ?key = "cache_key url opts" and ?ttl = "ttl_of opts" and ?n = "retries_of opts w"
    and ?rt = "rtype_of opts"
  have s: "next_statuses ?w [429, 200]"
    using assms(4) by (simp add: next_after_miss)
  from assms(2) have le0: "int 0 \<le> ?n" and le1: "int (Suc 0) \<le> ?n"
    by simp_all
  from fetch_loop_429 [OF s assms(3) le0, where key = ?key and ttl = ?ttl and rtype = ?rt
      and lastErr = None]
  obtain e1 w1 where
    l1: "fetch_loop H url ?key ?ttl ?n ?rt 0 None ?w = fetch_loop H url ?key ?ttl ?n ?rt (Suc 0) (Some e1) w1"
    and s1: "next_statuses w1 [200]" and f1: "net w1 = net ?w" "calls w1 = calls ?w + 1"
    by auto
  from assms(5) have "net w (calls w + 1) = Responds r"
    by (simp add: next_response_def split: outcome.splits)
  with f1 have r: "net w1 (calls w1) = Responds r"
    by simp
  with s1 have st: "status r = 200"
    by (simp add: next_statuses_def)
  from fetch_loop_ok [OF r _ _ assms(6,7) le1, where H = H and url = url and key = ?key
      and ttl = ?ttl and lastErr = "Some e1"] st
  obtain w2 where
    l2: "fetch_loop H url ?key ?ttl ?n ?rt (Suc 0) (Some e1) w1 = (Inr d, w2)"
    and f2: "calls w2 = calls w1 + 1"
    by auto
  from l1 l2 f1 f2 assms(1) show ?thesis
    by (simp add: robustFetch_miss)
qed

text \<open>
  C3, as the code has it. After a first call that succeeded, a second call for the same URL
  and options, made in a world whose memory entry for the key is the one the first call left
  and is not yet expired, returns the same payload and changes the world by one telemetry
  event only: no call of \<open>fetch\<close>, no sleep, no entry in the error log. The calls of
  \<open>fetch\<close> made in total are those of the first call: one when the cache was cold and the
  first response was a success that could be read.
\<close>

theorem robustFetch_second_call_cached:
  assumes "robustFetch H url opts w0 = (Inr d, w1)"
    and "mem w2 (cache_key url opts) = mem w1 (cache_key url opts)"
    and "\<forall>e. mem w1 (cache_key url opts) = Some e \<longrightarrow> clock w2 < expires e"
  shows "robustFetch H url opts w2 =
           (Inr d, track ''cache'' ''cache_hit''
                     [(''store'', JStr ''memory''), (''key'', JStr (cache_key url opts))] w2)
         \<and> calls (snd (robustFetch H url opts w2)) = calls w2
         \<and> sleeps (snd (robustFetch H url opts w2)) = sleeps w2
         \<and> err_log (snd (robustFetch H url opts w2)) = err_log w2
         \<and> (fst (cache_get (cache_key url opts) w0) = None \<and> 0 \<le> retries_of opts w0
              \<and> net w0 (calls w0) = Responds r \<and> 200 \<le> status r \<and> status r \<le> 299
              \<and> \<not> too_large r \<and> body r (rtype_of opts) = Inr d'
            \<longrightarrow> calls w1 = calls w0 + 1)"
proof -
  from robustFetch_success_cached [OF assms(1)] obtain e where
    e: "mem w1 (cache_key url opts) = Some e" and v: "cached_value e = d"
    by blast
  with assms(2,3) have "mem w2 (cache_key url opts) = Some e" and "clock w2 < expires e"
    by simp_all
  from robustFetch_hit [OF this, of H] v have
    hit: "robustFetch H url opts w2 =
           (Inr d, track ''cache'' ''cache_hit''
                     [(''store'', JStr ''memory''), (''key'', JStr (cache_key url opts))] w2)"
    by simp
  have one: "calls w1 = calls w0 + 1"
    if "fst (cache_get (cache_key url opts) w0) = None \<and> 0 \<le> retries_of opts w0
              \<and> net w0 (calls w0) = Responds r \<and> 200 \<le> status r \<and> status r \<le> 299
              \<and> \<not> too_large r \<and> body r (rtype_of opts) = Inr d'"
  proof -
    from that robustFetch_first_try [of url opts w0 r d' H]
    have "calls (snd (robustFetch H url opts w0)) = calls w0 + 1"
      by blast
    with assms(1) show ?thesis
      by simp
  qed
  from hit one show ?thesis
    by simp
qed

lemma robustFetch_miss_expiry:
  assumes "fst (cache_get (cache_key url opts) w) = None"
    and "robustFetch H url opts w = (Inr d, w')"
  shows "mem w' (cache_key url opts) = Some \<lparr>cached_value = d, expires = clock w' + ttl_of opts\<rparr>"
proof -
  from assms have "fetch_loop H url (cache_key url opts) (ttl_of opts) (retries_of opts w)
      (rtype_of opts) 0 None (snd (cache_get (cache_key url opts) w)) = (Inr d, w')"
    by (simp add: robustFetch_miss)
  then show ?thesis
    by (rule fetch_loop_returns_cached)
qed

theorem robustFetch_second_call_cached_witness:
  "fst (robustFetch example_host wits_url default_opts (cold_world [200]))
     = Inr (JObj [(''status'', JNum 200)])
   \<and> fst (robustFetch example_host wits_url default_opts (later 60000 (first_world [200])))
     = Inr (JObj [(''status'', JNum 200)])
   \<and> calls (snd (robustFetch example_host wits_url default_opts (later 60000 (first_world [200])))) = 1
   \<and> sleeps (snd (robustFetch example_host wits_url default_opts (later 60000 (first_world [200])))) = []"
proof -
  let ?P = "JObj [(''status'', JNum 200)]"
  have a: "0 \<le> retries_of default_opts (cold_world [200])"
    and b: "net (cold_world [200]) (calls (cold_world [200])) = Responds (plain_response 200)"
    and c: "200 \<le> status (plain_response 200)" "status (plain_response 200) \<le> 299"
      "\<not> too_large (plain_response 200)"
      "body (plain_response 200) (rtype_of default_opts) = Inr ?P"
    by (simp_all add: example_world_eval)
  from robustFetch_first_try [OF cold_world_miss a b c, of example_host wits_url]
  have f: "fst (robustFetch example_host wits_url default_opts (cold_world [200])) = Inr ?P"
    and s: "sleeps (first_world [200]) = []"
    by (simp_all add: first_world_def cold_world_def)
  then have first: "robustFetch example_host wits_url default_opts (cold_world [200])
      = (Inr ?P, first_world [200])"
    by (simp add: first_world_def prod_eq_iff)
  have same: "mem (later 60000 (first_world [200])) (cache_key wits_url default_opts)
      = mem (first_world [200]) (cache_key wits_url default_opts)"
    by (simp add: later_def)
  from robustFetch_miss_expiry [OF cold_world_miss first]
  have fresh: "\<forall>e. mem (first_world [200]) (cache_key wits_url default_opts) = Some e
      \<longrightarrow> clock (later 60000 (first_world [200])) < expires e"
    by (simp add: later_def ttl_of_def default_opts_def)
  from robustFetch_second_call_cached [OF first same fresh, of "plain_response 200" ?P]
    cold_world_miss [of "cache_key wits_url default_opts" "[200]"] a b c
  have "fst (robustFetch example_host wits_url default_opts (later 60000 (first_world [200]))) = Inr ?P"
    and "calls (snd (robustFetch example_host wits_url default_opts (later 60000 (first_world [200]))))
           = calls (later 60000 (first_world [200]))"
    and "sleeps (snd (robustFetch example_host wits_url default_opts (later 60000 (first_world [200]))))
           = sleeps (later 60000 (first_world [200]))"
    and "calls (first_world [200]) = calls (cold_world [200]) + 1"
    by simp_all
  with f s show ?thesis
    by (simp add: later_def cold_world_def)
qed

text \<open>
  The claim as stated fails: when the first call is answered 429 and then 200, it succeeds
  after two calls of \<open>fetch\<close>; the second call is served from the cache, and two network
  calls have been issued in total, not one.
\<close>

theorem robustFetch_two_calls_counterexample:
  "fst (robustFetch example_host wits_url default_opts (cold_world [429, 200]))
     = Inr (JObj [(''status'', JNum 200)])
   \<and> calls (first_world [429, 200]) = 2
   \<and> fst (robustFetch example_host wits_url default_opts (first_world [429, 200]))
     = Inr (JObj [(''status'', JNum 200)])
   \<and> calls (snd (robustFetch example_host wits_url default_opts (first_world [429, 200]))) = 2"
proof -
  let ?P = "JObj [(''status'', JNum 200)]"
  have h: "hostname example_host wits_url = Inr ''wits.worldbank.org''"
    by (simp add: example_host_def)
  have a: "1 \<le> retries_of default_opts (cold_world [429, 200])"
    and b: "next_statuses (cold_world [429, 200]) [429, 200]"
      "next_response (cold_world [429, 200]) 1 = Some (plain_response 200)"
      "\<not> too_large (plain_response 200)"
      "body (plain_response 200) (rtype_of default_opts) = Inr ?P"
    by (simp_all add: example_world_eval)
  from robustFetch_429_then_ok [OF cold_world_miss a h b]
  have f: "fst (robustFetch example_host wits_url default_opts (cold_world [429, 200])) = Inr ?P"
    and c: "calls (first_world [429, 200]) = 2"
    by (simp_all add: first_world_def cold_world_def)
  then have first: "robustFetch example_host wits_url default_opts (cold_world [429, 200])
      = (Inr ?P, first_world [429, 200])"
    by (simp add: first_world_def prod_eq_iff)
  from robustFetch_miss_expiry [OF cold_world_miss first]
  have m: "mem (first_world [429, 200]) (cache_key wits_url default_opts)
      = Some \<lparr>cached_value = ?P, expires = clock (first_world [429, 200]) + ttl_of default_opts\<rparr>" .
  have "clock (first_world [429, 200])
      < expires \<lparr>cached_value = ?P, expires = clock (first_world [429, 200]) + ttl_of default_opts\<rparr>"
    by (simp add: ttl_of_def default_opts_def)
  from robustFetch_hit [OF m this, of example_host]
  have "fst (robustFetch example_host wits_url default_opts (first_world [429, 200])) = Inr ?P"
    and "calls (snd (robustFetch example_host wits_url default_opts (first_world [429, 200])))
           = calls (first_world [429, 200])"
    by simp_all
  with f c show ?thesis
    by simp
qed

end
